theory Spec2Isabelle
  imports Complex_Main
begin

section \<open>Values, errors and arrays\<close>

text \<open>
  The exceptions that the modelled code paths can raise. The repository defines no
  exception class of its own: every failure is one raised by Python, pandas, numpy or
  scikit-learn, and only the forecast endpoint catches any of them.
\<close>

datatype py_error = ValueError | KeyError | IndexError | NotFittedError

text \<open>
  A numeric cell of a data frame or of a numpy array. Floating-point numbers are
  idealised as reals; \<open>None\<close> stands for NaN, the missing-value marker of pandas.
  Arithmetic on cells propagates NaN as numpy does.
\<close>

type_synonym cell = "real option"

type_synonym matrix = "cell list list"

definition fsub :: "cell \<Rightarrow> cell \<Rightarrow> cell" where
  "fsub a b = (case (a, b) of (Some x, Some y) \<Rightarrow> Some (x - y) | _ \<Rightarrow> None)"

definition fadd :: "cell \<Rightarrow> cell \<Rightarrow> cell" where
  "fadd a b = (case (a, b) of (Some x, Some y) \<Rightarrow> Some (x + y) | _ \<Rightarrow> None)"

definition fmul :: "cell \<Rightarrow> cell \<Rightarrow> cell" where
  "fmul a b = (case (a, b) of (Some x, Some y) \<Rightarrow> Some (x * y) | _ \<Rightarrow> None)"

definition fdiv :: "cell \<Rightarrow> cell \<Rightarrow> cell" where
  "fdiv a b = (case (a, b) of (Some x, Some y) \<Rightarrow> Some (x / y) | _ \<Rightarrow> None)"

text \<open>
  A two-dimensional numpy array is the list of its rows. \<open>is_matrix\<close> says that the
  rows have one length, which numpy guarantees for every array; \<open>n_cols\<close> is
  \<open>X.shape[1]\<close> of an array with at least one row.
\<close>

definition n_cols :: "matrix \<Rightarrow> nat" where
  "n_cols X = (case X of [] \<Rightarrow> 0 | r # _ \<Rightarrow> length r)"

definition is_matrix :: "matrix \<Rightarrow> bool" where
  "is_matrix X = list_all (\<lambda>r. length r = n_cols X) X"

definition column :: "matrix \<Rightarrow> nat \<Rightarrow> cell list" where
  "column X j = map (\<lambda>r. r ! j) X"

section \<open>StandardScaler\<close>

text \<open>
  \<open>sklearn.preprocessing.StandardScaler\<close>, as \<open>feature_engineering.py\<close> and
  \<open>inference.py\<close> use it: \<open>fit\<close> stores the mean and the population standard deviation
  of every column (NaN cells are disregarded in \<open>fit\<close> and kept by \<open>transform\<close>), a
  standard deviation of zero is replaced by 1, and the number of columns seen is kept
  as \<open>n_features_in_\<close>. Input validation refuses an array with no row or no column, and
  \<open>transform\<close> refuses an array whose column count is not \<open>n_features_in_\<close>; each
  refusal is a \<open>ValueError\<close>.
\<close>

record scaler =
  scaler_mean :: "cell list"
  scaler_scale :: "cell list"
  n_features_in :: nat

definition present :: "cell list \<Rightarrow> real list" where
  "present c = concat (map (\<lambda>x. case x of None \<Rightarrow> [] | Some v \<Rightarrow> [v]) c)"

definition nan_mean :: "cell list \<Rightarrow> cell" where
  "nan_mean c =
     (let v = present c
      in if v = [] then None else Some (sum_list v / real (length v)))"

definition nan_var :: "cell list \<Rightarrow> cell" where
  "nan_var c =
     (case nan_mean c of
        None \<Rightarrow> None
      | Some m \<Rightarrow>
          Some (sum_list (map (\<lambda>x. (x - m) ^ 2) (present c)) / real (length (present c))))"

definition handle_zeros_in_scale :: "cell \<Rightarrow> cell" where
  "handle_zeros_in_scale s =
     (case s of None \<Rightarrow> None | Some v \<Rightarrow> Some (if v = 0 then 1 else v))"

definition column_scale :: "cell list \<Rightarrow> cell" where
  "column_scale c = handle_zeros_in_scale (map_option sqrt (nan_var c))"

definition check_array :: "matrix \<Rightarrow> py_error + matrix" where
  "check_array X =
     (if length X < 1 then Inl ValueError
      else if n_cols X < 1 then Inl ValueError
      else Inr X)"

definition scaler_fit :: "matrix \<Rightarrow> py_error + scaler" where
  "scaler_fit X =
     (case check_array X of
        Inl e \<Rightarrow> Inl e
      | Inr A \<Rightarrow>
          Inr \<lparr> scaler_mean = map (\<lambda>j. nan_mean (column A j)) [0..<n_cols A],
                scaler_scale = map (\<lambda>j. column_scale (column A j)) [0..<n_cols A],
                n_features_in = n_cols A \<rparr>)"

definition standardize_row :: "scaler \<Rightarrow> cell list \<Rightarrow> cell list" where
  "standardize_row sc r =
     map2 fdiv (map2 fsub r (scaler_mean sc)) (scaler_scale sc)"

definition scaler_transform :: "scaler \<Rightarrow> matrix \<Rightarrow> py_error + matrix" where
  "scaler_transform sc X =
     (case check_array X of
        Inl e \<Rightarrow> Inl e
      | Inr A \<Rightarrow>
          if n_cols A \<noteq> n_features_in sc then Inl ValueError
          else Inr (map (standardize_row sc) A))"

definition unstandardize_row :: "scaler \<Rightarrow> cell list \<Rightarrow> cell list" where
  "unstandardize_row sc r =
     map2 fadd (map2 fmul r (scaler_scale sc)) (scaler_mean sc)"

definition scaler_inverse_transform :: "scaler \<Rightarrow> matrix \<Rightarrow> py_error + matrix" where
  "scaler_inverse_transform sc X =
     (case check_array X of
        Inl e \<Rightarrow> Inl e
      | Inr A \<Rightarrow>
          if n_cols A \<noteq> length (scaler_scale sc) \<or> n_cols A \<noteq> length (scaler_mean sc)
          then Inl ValueError
          else Inr (map (unstandardize_row sc) A))"

definition scaler_fit_transform :: "matrix \<Rightarrow> py_error + scaler \<times> matrix" where
  "scaler_fit_transform X =
     (case scaler_fit X of
        Inl e \<Rightarrow> Inl e
      | Inr sc \<Rightarrow>
          (case scaler_transform sc X of Inl e \<Rightarrow> Inl e | Inr Z \<Rightarrow> Inr (sc, Z)))"

text \<open>What \<open>fit\<close> guarantees of the scaler it returns.\<close>

definition fitted :: "scaler \<Rightarrow> bool" where
  "fitted sc =
     (0 < n_features_in sc \<and> length (scaler_mean sc) = n_features_in sc
      \<and> length (scaler_scale sc) = n_features_in sc
      \<and> list_all (\<lambda>s. s \<noteq> Some 0) (scaler_scale sc))"

section \<open>Data frames\<close>

text \<open>
  The column types that the code tells apart: \<open>create_sequences\<close> keeps the columns of
  type float64, float32, int64 and int32, \<open>prepare_data\<close> fills the columns of every
  numeric type.
\<close>

datatype dtype = Float64 | Float32 | Int64 | Int32 | OtherNumber | Object

definition is_feature_dtype :: "dtype \<Rightarrow> bool" where
  "is_feature_dtype d = (d = Float64 \<or> d = Float32 \<or> d = Int64 \<or> d = Int32)"

definition is_number :: "dtype \<Rightarrow> bool" where
  "is_number d = (d \<noteq> Object)"

text \<open>
  A pandas data frame: the column \<open>timestamp\<close> when the frame has one (parsed
  timestamps, as integers on the time axis), and the other columns in their order.
\<close>

record series =
  col_name :: string
  col_dtype :: dtype
  col_values :: "cell list"

record table =
  timestamp :: "int list option"
  columns :: "series list"

definition len_df :: "table \<Rightarrow> nat" where
  "len_df df =
     (case timestamp df of
        Some ts \<Rightarrow> length ts
      | None \<Rightarrow> (case columns df of [] \<Rightarrow> 0 | c # _ \<Rightarrow> length (col_values c)))"

definition wf_table :: "table \<Rightarrow> bool" where
  "wf_table df =
     (list_all (\<lambda>c. length (col_values c) = len_df df) (columns df)
      \<and> distinct (map col_name (columns df))
      \<and> ''timestamp'' \<notin> set (map col_name (columns df)))"

definition take_rows :: "nat list \<Rightarrow> 'a list \<Rightarrow> 'a list" where
  "take_rows indexer xs = map (\<lambda>i. xs ! i) indexer"

definition reindex :: "nat list \<Rightarrow> table \<Rightarrow> table" where
  "reindex indexer df =
     \<lparr> timestamp = map_option (take_rows indexer) (timestamp df),
       columns = map (\<lambda>c. c\<lparr> col_values := take_rows indexer (col_values c) \<rparr>) (columns df) \<rparr>"

definition set_column :: "string \<Rightarrow> dtype \<Rightarrow> cell list \<Rightarrow> table \<Rightarrow> table" where
  "set_column name d vs df =
     (let new = \<lparr> col_name = name, col_dtype = d, col_values = vs \<rparr>
      in if name \<in> set (map col_name (columns df))
         then df\<lparr> columns := map (\<lambda>c. if col_name c = name then new else c) (columns df) \<rparr>
         else df\<lparr> columns := columns df @ [new] \<rparr>)"

section \<open>WeatherFeatureEngineer.prepare_data\<close>

text \<open>
  \<open>sort_values('timestamp')\<close> computes an indexer that orders the timestamps and takes
  the rows in that order; it raises \<open>KeyError\<close> on a frame without the column. The
  default sorting algorithm of pandas is not stable, so the indexer is a parameter of
  the model: \<open>sorts_timestamps\<close> is what pandas promises about it, and
  \<open>stable_argsort\<close> is one such indexer.
\<close>

definition sorts_timestamps :: "(int list \<Rightarrow> nat list) \<Rightarrow> int list \<Rightarrow> bool" where
  "sorts_timestamps argsort ts =
     (distinct (argsort ts) \<and> set (argsort ts) = {0..<length ts}
      \<and> sorted (take_rows (argsort ts) ts))"

definition stable_argsort :: "int list \<Rightarrow> nat list" where
  "stable_argsort ts = map snd (sort_key fst (zip ts [0..<length ts]))"

definition sort_values :: "(int list \<Rightarrow> nat list) \<Rightarrow> table \<Rightarrow> py_error + table" where
  "sort_values argsort df =
     (case timestamp df of
        None \<Rightarrow> Inl KeyError
      | Some ts \<Rightarrow> Inr (reindex (argsort ts) df))"

text \<open>
  \<open>drop_duplicates(subset=['timestamp'], keep='first')\<close> keeps the rows whose timestamp
  does not occur in an earlier row, and raises \<open>KeyError\<close> when the frame has no such
  column. An empty frame is returned as it is, before the column is looked up.
\<close>

definition first_occurrences :: "int list \<Rightarrow> nat list" where
  "first_occurrences ts = filter (\<lambda>i. ts ! i \<notin> set (take i ts)) [0..<length ts]"

definition drop_duplicates :: "table \<Rightarrow> py_error + table" where
  "drop_duplicates df =
     (if len_df df = 0 then Inr df
      else (case timestamp df of
              None \<Rightarrow> Inl KeyError
            | Some ts \<Rightarrow> Inr (reindex (first_occurrences ts) df)))"

text \<open>
  \<open>fillna(method='ffill')\<close> carries the last valid value of a column forward;
  \<open>fillna(method='bfill')\<close> gives a missing cell the next valid value after it.
\<close>

fun ffill :: "cell \<Rightarrow> cell list \<Rightarrow> cell list" where
  "ffill last_valid [] = []"
| "ffill last_valid (None # xs) = last_valid # ffill last_valid xs"
| "ffill last_valid (Some v # xs) = Some v # ffill (Some v) xs"

definition first_valid :: "cell list \<Rightarrow> cell" where
  "first_valid xs = (case present xs of [] \<Rightarrow> None | v # _ \<Rightarrow> Some v)"

definition last_valid :: "cell list \<Rightarrow> cell" where
  "last_valid xs = (case present xs of [] \<Rightarrow> None | v # vs \<Rightarrow> Some (last (v # vs)))"

fun bfill :: "cell list \<Rightarrow> cell list" where
  "bfill [] = []"
| "bfill (None # xs) = first_valid xs # bfill xs"
| "bfill (Some v # xs) = Some v # bfill xs"

definition fill_numeric :: "table \<Rightarrow> table" where
  "fill_numeric df =
     df\<lparr> columns :=
          map (\<lambda>c. if is_number (col_dtype c)
                    then c\<lparr> col_values := bfill (ffill None (col_values c)) \<rparr> else c)
            (columns df) \<rparr>"

definition time_feature_names :: "string set" where
  "time_feature_names =
     {''hour'', ''day_of_year'', ''hour_sin'', ''hour_cos'', ''day_sin'', ''day_cos''}"

text \<open>
  The time features. \<open>dt_hour\<close> and \<open>dt_dayofyear\<close> are the calendar accessors of
  pandas, taken as parameters.
\<close>

definition time_features :: "(int \<Rightarrow> int) \<Rightarrow> (int \<Rightarrow> int) \<Rightarrow> table \<Rightarrow> table" where
  "time_features dt_hour dt_dayofyear df =
     (case timestamp df of
        None \<Rightarrow> df
      | Some ts \<Rightarrow>
          let hour = map (\<lambda>t. real_of_int (dt_hour t)) ts;
              day_of_year = map (\<lambda>t. real_of_int (dt_dayofyear t)) ts
          in set_column ''day_cos'' Float64 (map (\<lambda>d. Some (cos (2 * pi * d / 365))) day_of_year)
            (set_column ''day_sin'' Float64 (map (\<lambda>d. Some (sin (2 * pi * d / 365))) day_of_year)
            (set_column ''hour_cos'' Float64 (map (\<lambda>h. Some (cos (2 * pi * h / 24))) hour)
            (set_column ''hour_sin'' Float64 (map (\<lambda>h. Some (sin (2 * pi * h / 24))) hour)
            (set_column ''day_of_year'' Int32 (map Some day_of_year)
            (set_column ''hour'' Int32 (map Some hour) df))))))"

definition prepare_data ::
  "(int list \<Rightarrow> nat list) \<Rightarrow> (int \<Rightarrow> int) \<Rightarrow> (int \<Rightarrow> int) \<Rightarrow> table \<Rightarrow> py_error + table" where
  "prepare_data argsort dt_hour dt_dayofyear df =
     (case (if timestamp df \<noteq> None then sort_values argsort df else Inr df) of
        Inl e \<Rightarrow> Inl e
      | Inr sorted_df \<Rightarrow>
          (case drop_duplicates sorted_df of
             Inl e \<Rightarrow> Inl e
           | Inr unique_df \<Rightarrow>
               Inr (fill_numeric (time_features dt_hour dt_dayofyear unique_df))))"

section \<open>WeatherFeatureEngineer.create_sequences\<close>

text \<open>Indexing, slicing and \<open>range\<close> as Python and numpy define them on integers.\<close>

definition py_index :: "'a list \<Rightarrow> int \<Rightarrow> py_error + 'a" where
  "py_index xs i =
     (if 0 \<le> i \<and> i < int (length xs) then Inr (xs ! nat i)
      else if - int (length xs) \<le> i \<and> i < 0 then Inr (xs ! nat (i + int (length xs)))
      else Inl IndexError)"

definition py_slice :: "'a list \<Rightarrow> int \<Rightarrow> int \<Rightarrow> 'a list" where
  "py_slice xs a b =
     (let n = int (length xs);
          lo = (if a < 0 then max (a + n) 0 else min a n);
          hi = (if b < 0 then max (b + n) 0 else min b n)
      in take (nat (hi - lo)) (drop (nat lo) xs))"

definition py_range :: "int \<Rightarrow> int list" where
  "py_range n = map int [0..<nat n]"

text \<open>
  The engineer object: the two window parameters, the scaler (\<open>None\<close> until it has been
  fitted or loaded) and the feature columns remembered by the last call.
\<close>

record engineer =
  sequence_length :: int
  forecast_horizon :: int
  eng_scaler :: "scaler option"
  feature_columns :: "string list option"

definition feature_cols :: "table \<Rightarrow> series list" where
  "feature_cols df =
     filter (\<lambda>c. col_name c \<notin> {''timestamp'', ''hour'', ''day_of_year''}
                 \<and> is_feature_dtype (col_dtype c))
       (columns df)"

definition frame_values :: "nat \<Rightarrow> series list \<Rightarrow> matrix" where
  "frame_values n cols = map (\<lambda>i. map (\<lambda>c. col_values c ! i) cols) [0..<n]"

definition scale_features ::
  "engineer \<Rightarrow> bool \<Rightarrow> matrix \<Rightarrow> py_error + engineer \<times> matrix" where
  "scale_features self fit_scaler features =
     (if fit_scaler
      then (case scaler_fit_transform features of
              Inl e \<Rightarrow> Inl e
            | Inr (sc, features_scaled) \<Rightarrow> Inr (self\<lparr> eng_scaler := Some sc \<rparr>, features_scaled))
      else (case eng_scaler self of
              None \<Rightarrow> Inl NotFittedError
            | Some sc \<Rightarrow>
                (case scaler_transform sc features of
                   Inl e \<Rightarrow> Inl e
                 | Inr features_scaled \<Rightarrow> Inr (self, features_scaled))))"

text \<open>
  The loop over \<open>range(len(df) - sequence_length - forecast_horizon + 1)\<close>. The three
  lists grow by one entry per iteration (the timestamps only when the frame has the
  column); the first index out of range ends the call with \<open>IndexError\<close>.
\<close>

fun window_loop ::
  "int \<Rightarrow> int \<Rightarrow> matrix \<Rightarrow> int list option \<Rightarrow> int list
   \<Rightarrow> py_error + matrix list \<times> cell list \<times> int list" where
  "window_loop s h features_scaled ts [] = Inr ([], [], [])"
| "window_loop s h features_scaled ts (i # rest) =
     (let target_idx = i + s + h - 1
      in case py_index features_scaled target_idx of
           Inl e \<Rightarrow> Inl e
         | Inr target_row \<Rightarrow>
             (case py_index target_row 0 of
                Inl e \<Rightarrow> Inl e
              | Inr target \<Rightarrow>
                  (case (case ts of
                           None \<Rightarrow> Inr []
                         | Some t \<Rightarrow> (case py_index t target_idx of
                                       Inl e \<Rightarrow> Inl e
                                     | Inr stamp \<Rightarrow> Inr [stamp])) of
                     Inl e \<Rightarrow> Inl e
                   | Inr stamps \<Rightarrow>
                       (case window_loop s h features_scaled ts rest of
                          Inl e \<Rightarrow> Inl e
                        | Inr (X, y, timestamps) \<Rightarrow>
                            Inr (py_slice features_scaled i (i + s) # X,
                                 target # y, stamps @ timestamps)))))"

definition create_sequences ::
  "engineer \<Rightarrow> table \<Rightarrow> bool
   \<Rightarrow> py_error + engineer \<times> matrix list \<times> cell list \<times> int list" where
  "create_sequences self df fit_scaler =
     (let cols = feature_cols df;
          self1 = self\<lparr> feature_columns := Some (map col_name cols) \<rparr>;
          features = frame_values (len_df df) cols
      in case scale_features self1 fit_scaler features of
           Inl e \<Rightarrow> Inl e
         | Inr (self2, features_scaled) \<Rightarrow>
             (case window_loop (sequence_length self) (forecast_horizon self)
                     features_scaled (timestamp df)
                     (py_range (int (len_df df) - sequence_length self
                                - forecast_horizon self + 1)) of
                Inl e \<Rightarrow> Inl e
              | Inr (X, y, timestamps) \<Rightarrow> Inr (self2, X, y, timestamps)))"

text \<open>
  The two calls of \<open>main\<close> in \<open>feature_engineering.py\<close>: the table is prepared, and
  the windows are requested on the prepared table. An exception of the first call ends
  the run before the second.
\<close>

definition prepare_then_window ::
  "(int list \<Rightarrow> nat list) \<Rightarrow> (int \<Rightarrow> int) \<Rightarrow> (int \<Rightarrow> int) \<Rightarrow> engineer \<Rightarrow> table \<Rightarrow> bool
   \<Rightarrow> py_error + engineer \<times> matrix list \<times> cell list \<times> int list" where
  "prepare_then_window argsort dt_hour dt_dayofyear self df fit_scaler =
     (case prepare_data argsort dt_hour dt_dayofyear df of
        Inl e \<Rightarrow> Inl e
      | Inr df_prepared \<Rightarrow> create_sequences self df_prepared fit_scaler)"

section \<open>WeatherPredictor\<close>

text \<open>
  The metadata record that \<open>feature_engineering.py\<close> writes to \<open>metadata.json\<close> and
  that \<open>train.py\<close> copies into every checkpoint.
\<close>

record metadata =
  md_sequence_length :: int
  md_forecast_horizon :: int
  md_n_features :: int
  md_feature_columns :: "string list"
  md_train_samples :: int
  md_val_samples :: int

text \<open>
  A loaded \<open>WeatherPredictor\<close>: the model in evaluation mode is a function from the
  standardized window (the batch of one that \<open>predict\<close> builds) to the scalar it
  returns, the scaler is the unpickled one, the metadata comes from the checkpoint.
\<close>

record predictor =
  model :: "matrix \<Rightarrow> cell"
  pred_scaler :: scaler
  pred_metadata :: metadata

record prediction =
  temperature_celsius :: cell
  temperature_fahrenheit :: cell
  forecast_hours :: int
  confidence :: real

definition predict :: "predictor \<Rightarrow> matrix \<Rightarrow> py_error + prediction" where
  "predict p recent_data =
     (case scaler_transform (pred_scaler p) recent_data of
        Inl e \<Rightarrow> Inl e
      | Inr scaled_data \<Rightarrow>
          let scaled_pred = model p scaled_data;
              zeros = replicate (n_features_in (pred_scaler p)) (Some 0)
          in if n_features_in (pred_scaler p) = 0 then Inl IndexError
             else
               (case scaler_inverse_transform (pred_scaler p) [zeros[0 := scaled_pred]] of
                  Inl e \<Rightarrow> Inl e
                | Inr unscaled \<Rightarrow>
                    let celsius = unscaled ! 0 ! 0;
                        fahrenheit = fadd (fdiv (fmul celsius (Some 9)) (Some 5)) (Some 32)
                    in Inr \<lparr> temperature_celsius = celsius,
                             temperature_fahrenheit = fahrenheit,
                             forecast_hours = md_forecast_horizon (pred_metadata p) * 3,
                             confidence = 85 / 100 \<rparr>))"

definition predict_from_sequence :: "predictor \<Rightarrow> matrix \<Rightarrow> py_error + prediction" where
  "predict_from_sequence p sequence = predict p sequence"

section \<open>The training loop of train.py\<close>

text \<open>
  The command-line arguments that the loop reads, the architecture configuration it
  stores, and the checkpoint dictionary that \<open>torch.save\<close> writes.
\<close>

record train_args =
  args_hidden_size :: int
  args_num_layers :: int
  args_dropout :: real
  args_epochs :: int
  args_patience :: int

record model_config =
  input_size :: int
  hidden_size :: int
  num_layers :: int
  dropout :: real

record ('w, 'o) checkpoint =
  ckpt_epoch :: nat
  model_state_dict :: 'w
  optimizer_state_dict :: 'o
  train_loss :: real
  val_loss :: real
  ckpt_metadata :: metadata
  ckpt_model_config :: model_config

text \<open>
  The state that the loop threads through the epochs: the model weights \<open>'w\<close> and the
  optimizer state \<open>'o\<close>, \<open>best_val_loss\<close> (\<open>None\<close> is \<open>float('inf')\<close>), the
  patience counter, and the file \<open>best_model.pth\<close> as the list of the contents written
  to it, the latest first: every \<open>torch.save\<close> adds one.
\<close>

record ('w, 'o) train_state =
  weights :: 'w
  optimizer :: 'o
  best_val_loss :: "real option"
  patience_counter :: int
  best_model_pth :: "('w, 'o) checkpoint list"

definition loss_less :: "real \<Rightarrow> real option \<Rightarrow> bool" where
  "loss_less v best = (case best of None \<Rightarrow> True | Some b \<Rightarrow> v < b)"

definition best_le :: "real option \<Rightarrow> real option \<Rightarrow> bool" where
  "best_le a b =
     (case b of None \<Rightarrow> True | Some y \<Rightarrow> (case a of None \<Rightarrow> False | Some x \<Rightarrow> x \<le> y))"

text \<open>
  One iteration of the \<open>for epoch in range(args.epochs)\<close> loop. \<open>train_epoch\<close> and
  \<open>validate\<close> are the two functions of \<open>train.py\<close> that run the model over the data
  loaders: the first returns the updated weights and optimizer state with the training
  loss, the second the validation loss. The result says whether the loop breaks.
\<close>

definition epoch_body ::
  "('w \<times> 'o \<Rightarrow> ('w \<times> 'o) \<times> real) \<Rightarrow> ('w \<Rightarrow> real) \<Rightarrow> train_args \<Rightarrow> metadata \<Rightarrow> nat
   \<Rightarrow> ('w, 'o) train_state \<Rightarrow> ('w, 'o) train_state \<times> bool" where
  "epoch_body train_epoch validate args md epoch st =
     (let ((w, opt), trn_loss) = train_epoch (weights st, optimizer st);
          vl = validate w;
          st1 = st\<lparr> weights := w, optimizer := opt \<rparr>
      in if loss_less vl (best_val_loss st1)
         then (st1\<lparr> best_val_loss := Some vl, patience_counter := 0,
                    best_model_pth :=
                      \<lparr> ckpt_epoch = epoch, model_state_dict = w, optimizer_state_dict = opt,
                        train_loss = trn_loss, val_loss = vl, ckpt_metadata = md,
                        ckpt_model_config =
                          \<lparr> input_size = md_n_features md,
                            hidden_size = args_hidden_size args,
                            num_layers = args_num_layers args,
                            dropout = args_dropout args \<rparr> \<rparr>
                      # best_model_pth st1 \<rparr>, False)
         else (st1\<lparr> patience_counter := patience_counter st1 + 1 \<rparr>,
               args_patience args \<le> patience_counter st1 + 1))"

text \<open>
  The loop over the epochs: the final state, and the epoch at which the loop broke
  (\<open>None\<close> when it ran through every epoch).
\<close>

fun training_loop ::
  "('w \<times> 'o \<Rightarrow> ('w \<times> 'o) \<times> real) \<Rightarrow> ('w \<Rightarrow> real) \<Rightarrow> train_args \<Rightarrow> metadata \<Rightarrow> nat list
   \<Rightarrow> ('w, 'o) train_state \<Rightarrow> ('w, 'o) train_state \<times> nat option" where
  "training_loop train_epoch validate args md [] st = (st, None)"
| "training_loop train_epoch validate args md (epoch # rest) st =
     (case epoch_body train_epoch validate args md epoch st of
        (st', True) \<Rightarrow> (st', Some epoch)
      | (st', False) \<Rightarrow> training_loop train_epoch validate args md rest st')"

text \<open>The states at the end of the epochs that the loop executes, in order.\<close>

fun training_trace ::
  "('w \<times> 'o \<Rightarrow> ('w \<times> 'o) \<times> real) \<Rightarrow> ('w \<Rightarrow> real) \<Rightarrow> train_args \<Rightarrow> metadata \<Rightarrow> nat list
   \<Rightarrow> ('w, 'o) train_state \<Rightarrow> ('w, 'o) train_state list" where
  "training_trace train_epoch validate args md [] st = []"
| "training_trace train_epoch validate args md (epoch # rest) st =
     (case epoch_body train_epoch validate args md epoch st of
        (st', True) \<Rightarrow> [st']
      | (st', False) \<Rightarrow> st' # training_trace train_epoch validate args md rest st')"

definition initial_state ::
  "'w \<Rightarrow> 'o \<Rightarrow> ('w, 'o) checkpoint list \<Rightarrow> ('w, 'o) train_state" where
  "initial_state w opt file =
     \<lparr> weights = w, optimizer = opt, best_val_loss = None, patience_counter = 0,
       best_model_pth = file \<rparr>"

definition epochs_range :: "train_args \<Rightarrow> nat list" where
  "epochs_range args = [0..<nat (args_epochs args)]"

text \<open>
  The words of the specification about early stopping, stated on the validation losses
  alone. \<open>loss_history\<close> lists the validation losses of the first \<open>n\<close> epochs, were all of
  them run; an epoch improves when its loss is strictly below the loss of every earlier
  epoch; \<open>streak\<close> counts the consecutive epochs without improvement up to an epoch.
\<close>

fun loss_history ::
  "('w \<times> 'o \<Rightarrow> ('w \<times> 'o) \<times> real) \<Rightarrow> ('w \<Rightarrow> real) \<Rightarrow> nat \<Rightarrow> 'w \<times> 'o \<Rightarrow> real list" where
  "loss_history train_epoch validate 0 l = []"
| "loss_history train_epoch validate (Suc n) l =
     (case train_epoch l of
        (l', trn_loss) \<Rightarrow> validate (fst l') # loss_history train_epoch validate n l')"

definition improves :: "real list \<Rightarrow> nat \<Rightarrow> bool" where
  "improves vs e = (\<forall>j<e. vs ! e < vs ! j)"

fun streak :: "real list \<Rightarrow> nat \<Rightarrow> nat" where
  "streak vs 0 = (if improves vs 0 then 0 else 1)"
| "streak vs (Suc e) = (if improves vs (Suc e) then 0 else Suc (streak vs e))"

definition patience_exhausted :: "real list \<Rightarrow> int \<Rightarrow> nat \<Rightarrow> bool" where
  "patience_exhausted vs patience e = (\<not> improves vs e \<and> patience \<le> int (streak vs e))"

text \<open>The quantities that the loop maintains, as functions of the loss history.\<close>

fun best_so_far :: "real list \<Rightarrow> nat \<Rightarrow> real option" where
  "best_so_far vs 0 = None"
| "best_so_far vs (Suc k) =
     (if loss_less (vs ! k) (best_so_far vs k) then Some (vs ! k) else best_so_far vs k)"

definition learner_after ::
  "('w \<times> 'o \<Rightarrow> ('w \<times> 'o) \<times> real) \<Rightarrow> nat \<Rightarrow> 'w \<times> 'o \<Rightarrow> 'w \<times> 'o" where
  "learner_after train_epoch k l = ((\<lambda>x. fst (train_epoch x)) ^^ k) l"

definition loop_invariant ::
  "('w \<times> 'o \<Rightarrow> ('w \<times> 'o) \<times> real) \<Rightarrow> 'w \<times> 'o \<Rightarrow> real list \<Rightarrow> nat \<Rightarrow> ('w, 'o) train_state
   \<Rightarrow> bool" where
  "loop_invariant train_epoch l0 vs k st =
     ((weights st, optimizer st) = learner_after train_epoch k l0
      \<and> best_val_loss st = best_so_far vs k
      \<and> patience_counter st = (case k of 0 \<Rightarrow> 0 | Suc j \<Rightarrow> int (streak vs j)))"

section \<open>The forecast endpoint of main.py\<close>

text \<open>
  \<open>df[features]\<close> selects the named columns in the order of the names and raises
  \<open>KeyError\<close> when one is missing.
\<close>

fun select_columns :: "string list \<Rightarrow> series list \<Rightarrow> py_error + series list" where
  "select_columns [] cols = Inr []"
| "select_columns (name # names) cols =
     (case find (\<lambda>c. col_name c = name) cols of
        None \<Rightarrow> Inl KeyError
      | Some c \<Rightarrow>
          (case select_columns names cols of
             Inl e \<Rightarrow> Inl e
           | Inr cs \<Rightarrow> Inr (c # cs)))"

definition features :: "string list" where
  "features = [''temperature'', ''humidity'', ''hour_sin'', ''hour_cos'', ''day_sin'', ''day_cos'']"

text \<open>
  The window that \<open>get_forecast\<close> hands to the predictor: the time features are
  recomputed on the processed table as it was read, the six feature columns are
  selected, and \<open>iloc[-4:]\<close> takes the last four rows.
\<close>

definition forecast_window ::
  "(int \<Rightarrow> int) \<Rightarrow> (int \<Rightarrow> int) \<Rightarrow> table \<Rightarrow> py_error + matrix" where
  "forecast_window dt_hour dt_dayofyear df =
     (case timestamp df of
        None \<Rightarrow> Inl KeyError
      | Some ts \<Rightarrow>
          let df1 = time_features dt_hour dt_dayofyear df
          in case select_columns features (columns df1) of
               Inl e \<Rightarrow> Inl e
             | Inr cols \<Rightarrow>
                 Inr (py_slice (frame_values (len_df df1) cols) (- 4) (int (len_df df1))))"

text \<open>
  The responses of the endpoint. A successful response is formatted from the prediction
  and from the last row of the table; only the prediction is kept here.
\<close>

datatype response =
  Location_not_supported
  | Model_not_loaded
  | Prediction_failed py_error
  | Forecast prediction

definition get_forecast ::
  "(int \<Rightarrow> int) \<Rightarrow> (int \<Rightarrow> int) \<Rightarrow> predictor option \<Rightarrow> py_error + table \<Rightarrow> real \<Rightarrow> real
   \<Rightarrow> response" where
  "get_forecast dt_hour dt_dayofyear predictor_loaded read_parquet lat lon =
     (if \<not> (33 < lat \<and> lat < 345 / 10 \<and> - 85 < lon \<and> lon < - 835 / 10)
      then Location_not_supported
      else (case predictor_loaded of
              None \<Rightarrow> Model_not_loaded
            | Some p \<Rightarrow>
                (case read_parquet of
                   Inl e \<Rightarrow> Prediction_failed e
                 | Inr df \<Rightarrow>
                     (case forecast_window dt_hour dt_dayofyear df of
                        Inl e \<Rightarrow> Prediction_failed e
                      | Inr recent_data \<Rightarrow>
                          (case predict p recent_data of
                             Inl e \<Rightarrow> Prediction_failed e
                           | Inr result \<Rightarrow> Forecast result)))))"

section \<open>Properties of the scaler\<close>

lemma present_empty_iff: "present c = [] \<longleftrightarrow> (\<forall>x\<in>set c. x = None)"
  by (induction c) (auto simp: present_def split: option.splits)

lemma nan_mean_Some: "Some x \<in> set c \<Longrightarrow> \<exists>m. nan_mean c = Some m"
  by (auto simp: nan_mean_def Let_def present_empty_iff)

lemma column_scale_Some:
  "Some x \<in> set c \<Longrightarrow> \<exists>s. column_scale c = Some s \<and> s \<noteq> 0"
  using nan_mean_Some [of x c]
  by (auto simp: column_scale_def nan_var_def handle_zeros_in_scale_def)

lemma column_scale_nonzero: "column_scale c \<noteq> Some 0"
  by (auto simp: column_scale_def handle_zeros_in_scale_def split: option.splits)

lemma cell_roundtrip:
  "(x \<noteq> None \<longrightarrow> m \<noteq> None \<and> s \<noteq> None) \<Longrightarrow> s \<noteq> Some 0 \<Longrightarrow>
   fadd (fmul (fdiv (fsub x m) s) s) m = x"
  by (auto simp: fadd_def fmul_def fdiv_def fsub_def split: option.splits)

lemma scaler_fit_fitted: "scaler_fit X = Inr sc \<Longrightarrow> fitted sc"
  by (auto simp: scaler_fit_def check_array_def fitted_def list_all_iff column_scale_nonzero
      column_scale_nonzero [symmetric] split: if_splits)

lemma row_roundtrip:
  assumes len: "length r = length (scaler_mean sc)" "length r = length (scaler_scale sc)"
    and ok: "\<And>j. j < length r \<Longrightarrow> r ! j \<noteq> None \<Longrightarrow> scaler_mean sc ! j \<noteq> None \<and> scaler_scale sc ! j \<noteq> None"
    and nz: "\<And>j. j < length r \<Longrightarrow> scaler_scale sc ! j \<noteq> Some 0"
  shows "unstandardize_row sc (standardize_row sc r) = r"
  using len by (auto simp: unstandardize_row_def standardize_row_def list_eq_iff_nth_eq
      intro!: cell_roundtrip ok nz)

lemma fit_row_roundtrip:
  assumes fit: "scaler_fit X = Inr sc" and mat: "is_matrix X" and r: "r \<in> set X"
  shows "unstandardize_row sc (standardize_row sc r) = r"
proof (rule row_roundtrip)
  from fit have X: "X \<noteq> []" and sc: "sc =
      \<lparr> scaler_mean = map (\<lambda>j. nan_mean (column X j)) [0..<n_cols X],
        scaler_scale = map (\<lambda>j. column_scale (column X j)) [0..<n_cols X],
        n_features_in = n_cols X \<rparr>"
    by (auto simp: scaler_fit_def check_array_def split: if_splits)
  from mat r have len: "length r = n_cols X"
    by (simp add: is_matrix_def list_all_iff)
  show "length r = length (scaler_mean sc)" "length r = length (scaler_scale sc)"
    using len sc by simp_all
  fix j assume j: "j < length r"
  show "scaler_scale sc ! j \<noteq> Some 0"
    using j len sc by (simp add: column_scale_nonzero)
  assume "r ! j \<noteq> None"
  then obtain x where "r ! j = Some x" by auto
  with r have "Some x \<in> set (column X j)"
    by (force simp: column_def)
  from nan_mean_Some [OF this] column_scale_Some [OF this]
  show "scaler_mean sc ! j \<noteq> None \<and> scaler_scale sc ! j \<noteq> None"
    using j len sc by auto
qed

lemma n_cols_map_standardize:
  "fitted sc \<Longrightarrow> X \<noteq> [] \<Longrightarrow> n_cols X = n_features_in sc \<Longrightarrow>
   n_cols (map (standardize_row sc) X) = n_features_in sc"
  by (cases X) (auto simp: n_cols_def standardize_row_def fitted_def)

text \<open>
  Claim C6. Fitting the scaler on a feature matrix, standardizing the matrix and applying
  the inverse transform gives the matrix back. With floating-point numbers idealised as
  reals the reconstruction is exact, so it holds within every tolerance. The three
  calls all succeed on a matrix that has a row and a column. Non-zero variance of the
  columns is not needed: a column of zero variance is scaled by 1, and a NaN cell stays
  NaN both ways.
\<close>

theorem scaler_roundtrip:
  assumes mat: "is_matrix X" and rows: "X \<noteq> []" and cols: "0 < n_cols X"
  shows "\<exists>sc Z. scaler_fit X = Inr sc \<and> scaler_transform sc X = Inr Z
           \<and> scaler_inverse_transform sc Z = Inr X"
proof -
  define sc where "sc =
      \<lparr> scaler_mean = map (\<lambda>j. nan_mean (column X j)) [0..<n_cols X],
        scaler_scale = map (\<lambda>j. column_scale (column X j)) [0..<n_cols X],
        n_features_in = n_cols X \<rparr>"
  have fit: "scaler_fit X = Inr sc"
    using rows cols by (simp add: scaler_fit_def check_array_def sc_def)
  have fitted: "fitted sc" by (rule scaler_fit_fitted [OF fit])
  have nf: "n_features_in sc = n_cols X" by (simp add: sc_def)
  define Z where "Z = map (standardize_row sc) X"
  have tr: "scaler_transform sc X = Inr Z"
    using rows cols by (simp add: scaler_transform_def check_array_def Z_def nf)
  have ncZ: "n_cols Z = n_features_in sc"
    unfolding Z_def using fitted rows nf by (simp add: n_cols_map_standardize)
  have undo: "map (unstandardize_row sc) Z = X"
    unfolding Z_def using fit_row_roundtrip [OF fit mat] by (simp add: map_idI)
  have "scaler_inverse_transform sc Z = Inr X"
    using rows cols ncZ fitted undo
    by (simp add: scaler_inverse_transform_def check_array_def fitted_def Z_def nf)
  with fit tr show ?thesis by blast
qed

theorem scaler_roundtrip_witness:
  "is_matrix [[Some 0, Some 1], [Some 4, Some 3]]
   \<and> [[Some 0, Some 1], [Some 4, Some (3::real)]] \<noteq> []
   \<and> 0 < n_cols [[Some 0, Some 1], [Some 4, Some 3]]
   \<and> (\<exists>sc Z. scaler_fit [[Some 0, Some 1], [Some 4, Some 3]] = Inr sc
         \<and> scaler_transform sc [[Some 0, Some 1], [Some 4, Some 3]] = Inr Z
         \<and> scaler_inverse_transform sc Z = Inr [[Some 0, Some 1], [Some 4, Some 3]])"
  using scaler_roundtrip [of "[[Some 0, Some 1], [Some 4, Some 3]]"]
  by (simp add: is_matrix_def n_cols_def)

section \<open>Properties of create_sequences\<close>

lemma scaler_transform_ok:
  "X \<noteq> [] \<Longrightarrow> 0 < n_cols X \<Longrightarrow> n_cols X = n_features_in sc \<Longrightarrow>
   scaler_transform sc X = Inr (map (standardize_row sc) X)"
  by (simp add: scaler_transform_def check_array_def)

lemma length_frame_values: "length (frame_values n cols) = n"
  by (simp add: frame_values_def)

lemma n_cols_frame_values: "0 < n \<Longrightarrow> n_cols (frame_values n cols) = length cols"
  by (simp add: frame_values_def n_cols_def upt_conv_Cons)

lemma is_matrix_frame_values: "is_matrix (frame_values n cols)"
  by (cases "0 < n") (simp_all add: is_matrix_def list_all_iff frame_values_def n_cols_def upt_conv_Cons)

lemma length_standardize_row:
  "fitted sc \<Longrightarrow> length r = n_features_in sc \<Longrightarrow> length (standardize_row sc r) = length r"
  by (simp add: standardize_row_def fitted_def)

lemma scaler_transform_mismatch:
  "n_cols X \<noteq> n_features_in sc \<Longrightarrow> scaler_transform sc X = Inl ValueError"
  by (simp add: scaler_transform_def check_array_def)

lemma scaler_fit_frame:
  assumes "0 < n" "cols \<noteq> []"
  shows "\<exists>sc. scaler_fit (frame_values n cols) = Inr sc \<and> n_features_in sc = length cols"
  using assms
  by (simp add: scaler_fit_def check_array_def length_frame_values n_cols_frame_values)

lemma scaler_transform_frame:
  assumes n: "0 < n" and cols: "cols \<noteq> []" and nf: "n_features_in sc = length cols"
  shows "scaler_transform sc (frame_values n cols)
         = Inr (map (standardize_row sc) (frame_values n cols))"
proof (rule scaler_transform_ok)
  show "frame_values n cols \<noteq> []"
    using n by (simp add: frame_values_def)
  show "0 < n_cols (frame_values n cols)"
    using n cols by (simp add: n_cols_frame_values)
  show "n_cols (frame_values n cols) = n_features_in sc"
    using n nf by (simp add: n_cols_frame_values)
qed

lemma scaled_rows:
  assumes tr: "scaler_transform sc F = Inr Z" and fit: "fitted sc" and mat: "is_matrix F"
  shows "length Z = length F \<and> (\<forall>r\<in>set Z. r \<noteq> [])"
proof -
  from tr have Z: "Z = map (standardize_row sc) F" and nc: "n_cols F = n_features_in sc"
    by (auto simp: scaler_transform_def check_array_def split: if_splits)
  have "length (standardize_row sc r) = n_features_in sc" if "r \<in> set F" for r
    using that mat nc fit by (simp add: is_matrix_def list_all_iff length_standardize_row)
  moreover from fit have "0 < n_features_in sc"
    by (simp add: fitted_def)
  ultimately show ?thesis
    unfolding Z by fastforce
qed

lemma scale_features_ok:
  assumes n: "0 < n" and cols: "cols \<noteq> []"
    and sc: "fit_scaler \<or> (\<exists>sc. eng_scaler self = Some sc \<and> fitted sc
                \<and> n_features_in sc = length cols)"
  shows "\<exists>self2 Z. scale_features self fit_scaler (frame_values n cols) = Inr (self2, Z)
           \<and> length Z = n \<and> (\<forall>r\<in>set Z. r \<noteq> [])"
proof (cases fit_scaler)
  case True
  from scaler_fit_frame [OF n cols] obtain sc
    where fit: "scaler_fit (frame_values n cols) = Inr sc" and nf: "n_features_in sc = length cols"
    by blast
  have tr: "scaler_transform sc (frame_values n cols)
            = Inr (map (standardize_row sc) (frame_values n cols))"
    by (rule scaler_transform_frame [OF n cols nf])
  from scaled_rows [OF tr scaler_fit_fitted [OF fit] is_matrix_frame_values] True fit tr
  show ?thesis
    by (simp add: scale_features_def scaler_fit_transform_def length_frame_values)
next
  case False
  with sc obtain sc0 where e: "eng_scaler self = Some sc0" and fit: "fitted sc0"
    and nf: "n_features_in sc0 = length cols"
    by blast
  have tr: "scaler_transform sc0 (frame_values n cols)
            = Inr (map (standardize_row sc0) (frame_values n cols))"
    by (rule scaler_transform_frame [OF n cols nf])
  from scaled_rows [OF tr fit is_matrix_frame_values] False e tr
  show ?thesis
    by (simp add: scale_features_def length_frame_values)
qed

lemma py_index_ok:
  "- int (length xs) \<le> i \<Longrightarrow> i < int (length xs) \<Longrightarrow> \<exists>v. py_index xs i = Inr v \<and> v \<in> set xs"
  by (auto simp: py_index_def Let_def)

lemma window_loop_ok:
  assumes idx: "\<forall>i\<in>set is. - int (length F) \<le> i + s + h - 1 \<and> i + s + h - 1 < int (length F)"
    and rows: "\<forall>r\<in>set F. r \<noteq> []"
    and ts: "\<forall>t. ts = Some t \<longrightarrow> length t = length F"
  shows "\<exists>X y T. window_loop s h F ts is = Inr (X, y, T) \<and> length X = length is
           \<and> length y = length is \<and> length T = (if ts = None then 0 else length is)"
  using idx
proof (induction "is")
  case Nil
  then show ?case by simp
next
  case (Cons i rest)
  then obtain X y T where rec: "window_loop s h F ts rest = Inr (X, y, T)"
    "length X = length rest" "length y = length rest"
    "length T = (if ts = None then 0 else length rest)"
    by auto
  from Cons.prems have b: "- int (length F) \<le> i + s + h - 1" "i + s + h - 1 < int (length F)"
    by auto
  from py_index_ok [OF b] obtain row where row: "py_index F (i + s + h - 1) = Inr row" "row \<in> set F"
    by blast
  with rows have "row \<noteq> []" by blast
  then obtain v where v: "py_index row 0 = Inr v"
    by (auto simp: py_index_def)
  show ?case
  proof (cases ts)
    case None
    with rec row v show ?thesis by simp
  next
    case (Some t)
    with ts b py_index_ok [of t "i + s + h - 1"]
    obtain stamp where "py_index t (i + s + h - 1) = Inr stamp" by auto
    with Some rec row v show ?thesis by simp
  qed
qed

lemma length_py_range: "int (length (py_range n)) = max 0 n"
  by (simp add: py_range_def)

lemma py_range_nth: "k < length (py_range n) \<Longrightarrow> py_range n ! k = int k"
  by (simp add: py_range_def)

lemma py_range_bounds: "i \<in> set (py_range n) \<Longrightarrow> 0 \<le> i \<and> i < n"
  by (auto simp: py_range_def)

lemma create_sequences_runs:
  assumes rows: "0 < len_df df" and cols: "feature_cols df \<noteq> []"
    and s: "0 \<le> sequence_length self" and h: "0 \<le> forecast_horizon self"
    and sc: "fit_scaler \<or> (\<exists>sc. eng_scaler self = Some sc \<and> fitted sc
                \<and> n_features_in sc = length (feature_cols df))"
  shows "\<exists>self' X y T. create_sequences self df fit_scaler = Inr (self', X, y, T)
           \<and> length X = length (py_range (int (len_df df) - sequence_length self
                                            - forecast_horizon self + 1))
           \<and> length y = length X
           \<and> length T = (if timestamp df = None then 0 else length X)"
proof -
  let ?self1 = "self\<lparr> feature_columns := Some (map col_name (feature_cols df)) \<rparr>"
  let ?n = "int (len_df df) - sequence_length self - forecast_horizon self + 1"
  from sc have "fit_scaler \<or> (\<exists>sc. eng_scaler ?self1 = Some sc \<and> fitted sc
                \<and> n_features_in sc = length (feature_cols df))"
    by simp
  from scale_features_ok [OF rows cols this] obtain self2 Z
    where sf: "scale_features ?self1 fit_scaler (frame_values (len_df df) (feature_cols df))
               = Inr (self2, Z)"
      and len: "length Z = len_df df" and ne: "\<forall>r\<in>set Z. r \<noteq> []"
    by blast
  have idx: "\<forall>i\<in>set (py_range ?n).
               - int (length Z) \<le> i + sequence_length self + forecast_horizon self - 1
               \<and> i + sequence_length self + forecast_horizon self - 1 < int (length Z)"
    using s h rows len by (auto dest!: py_range_bounds)
  have ts: "\<forall>t. timestamp df = Some t \<longrightarrow> length t = length Z"
    using len by (simp add: len_df_def)
  from window_loop_ok [OF idx ne ts] obtain X y T
    where "window_loop (sequence_length self) (forecast_horizon self) Z (timestamp df)
             (py_range ?n) = Inr (X, y, T)"
      and "length X = length (py_range ?n)" and "length y = length (py_range ?n)"
      and "length T = (if timestamp df = None then 0 else length (py_range ?n))"
    by blast
  with sf show ?thesis
    by (simp add: create_sequences_def Let_def)
qed

text \<open>
  On a frame with at least one row and at least one feature column, and for a sequence
  length and a forecast horizon that are not negative, \<open>create_sequences\<close> (fitting the
  scaler, or applying a fitted scaler of the same column count) raises no error and
  returns \<open>max(0, N - sequence_length - forecast_horizon + 1)\<close> windows, as many
  targets, and as many timestamps when the frame has a timestamp column.
\<close>

lemma create_sequences_window_count:
  assumes rows: "0 < len_df df" and cols: "feature_cols df \<noteq> []"
    and s: "0 \<le> sequence_length self" and h: "0 \<le> forecast_horizon self"
    and sc: "fit_scaler \<or> (\<exists>sc. eng_scaler self = Some sc \<and> fitted sc
                \<and> n_features_in sc = length (feature_cols df))"
  shows "\<exists>self' X y T. create_sequences self df fit_scaler = Inr (self', X, y, T)
           \<and> int (length X)
               = max 0 (int (len_df df) - sequence_length self - forecast_horizon self + 1)
           \<and> length y = length X
           \<and> length T = (if timestamp df = None then 0 else length X)"
proof -
  from create_sequences_runs [OF rows cols s h sc] obtain self' X y T
    where "create_sequences self df fit_scaler = Inr (self', X, y, T)"
      and "length X = length (py_range (int (len_df df) - sequence_length self
                                         - forecast_horizon self + 1))"
      and "length y = length X"
      and "length T = (if timestamp df = None then 0 else length X)"
    by blast
  then show ?thesis
    by (simp add: length_py_range)
qed

text \<open>
  The 20 rows of the specification, with \<open>sequence_length = 8\<close> and
  \<open>forecast_horizon = 8\<close>, give exactly 5 windows.
\<close>

definition twenty_rows :: table where
  "twenty_rows =
     \<lparr> timestamp = Some (map int [0..<20]),
       columns = [\<lparr> col_name = ''temperature'', col_dtype = Float64,
                    col_values = map (\<lambda>i. Some (real i)) [0..<20] \<rparr>] \<rparr>"

lemma create_sequences_twenty_rows:
  "\<exists>self' X y T.
     create_sequences \<lparr> sequence_length = 8, forecast_horizon = 8, eng_scaler = None,
                        feature_columns = None \<rparr> twenty_rows True = Inr (self', X, y, T)
     \<and> length X = 5 \<and> length y = 5 \<and> length T = 5"
proof -
  have a: "0 < len_df twenty_rows" "feature_cols twenty_rows \<noteq> []"
    by (simp_all add: twenty_rows_def len_df_def feature_cols_def is_feature_dtype_def)
  have n: "len_df twenty_rows = 20" "timestamp twenty_rows \<noteq> None"
    by (simp_all add: twenty_rows_def len_df_def)
  show ?thesis
    using a n create_sequences_window_count [OF a, of
        "\<lparr> sequence_length = 8, forecast_horizon = 8, eng_scaler = None,
           feature_columns = None \<rparr>" True]
    by auto
qed

definition empty_frame :: table where
  "empty_frame =
     \<lparr> timestamp = Some [],
       columns = [\<lparr> col_name = ''temperature'', col_dtype = Float64, col_values = [] \<rparr>] \<rparr>"

definition one_row :: table where
  "one_row =
     \<lparr> timestamp = Some [0],
       columns = [\<lparr> col_name = ''temperature'', col_dtype = Float64,
                    col_values = [Some 1] \<rparr>] \<rparr>"

text \<open>
  Claim C1 is not met by the code on a table without rows. The table that
  \<open>prepare_data\<close> returns for a frame of no rows has no valid window, and
  \<open>create_sequences\<close> does not return empty arrays on it: the scaler is fitted before
  the windows are cut, and it refuses the empty feature matrix with \<open>ValueError\<close>. On
  the cleaned table of a single row, which has no valid window either, the three results
  are empty, as the claim says and as the caller in \<open>main\<close> expects.
\<close>

theorem create_sequences_empty_frame_raises:
  "(case prepare_data stable_argsort (\<lambda>t. t mod 24) (\<lambda>t. 1) empty_frame of
      Inl e \<Rightarrow> False
    | Inr cleaned \<Rightarrow>
        len_df cleaned = 0
        \<and> create_sequences \<lparr> sequence_length = 8, forecast_horizon = 8, eng_scaler = None,
                              feature_columns = None \<rparr> cleaned True = Inl ValueError)
   \<and> (case prepare_data stable_argsort (\<lambda>t. t mod 24) (\<lambda>t. 1) one_row of
        Inl e \<Rightarrow> False
      | Inr cleaned \<Rightarrow>
          len_df cleaned = 1
          \<and> (case create_sequences \<lparr> sequence_length = 8, forecast_horizon = 8,
                                      eng_scaler = None, feature_columns = None \<rparr>
                   cleaned True of
                Inl e \<Rightarrow> False
              | Inr (self', X, y, T) \<Rightarrow> X = [] \<and> y = [] \<and> T = []))"
proof -
  have empty: "\<exists>cleaned.
      prepare_data stable_argsort (\<lambda>t. t mod 24) (\<lambda>t. 1) empty_frame = Inr cleaned
      \<and> len_df cleaned = 0
      \<and> create_sequences \<lparr> sequence_length = 8, forecast_horizon = 8, eng_scaler = None,
                            feature_columns = None \<rparr> cleaned True = Inl ValueError"
    by (simp add: prepare_data_def sort_values_def drop_duplicates_def empty_frame_def
        stable_argsort_def len_df_def reindex_def take_rows_def time_features_def
        set_column_def fill_numeric_def is_number_def
        create_sequences_def feature_cols_def is_feature_dtype_def frame_values_def
        scale_features_def scaler_fit_transform_def scaler_fit_def check_array_def Let_def)
  obtain cleaned
    where c: "prepare_data stable_argsort (\<lambda>t. t mod 24) (\<lambda>t. 1) one_row = Inr cleaned"
      and n: "len_df cleaned = 1" and f: "length (feature_cols cleaned) = 5"
    by (simp add: prepare_data_def sort_values_def drop_duplicates_def one_row_def
        stable_argsort_def len_df_def reindex_def take_rows_def time_features_def
        set_column_def fill_numeric_def is_number_def first_occurrences_def upt_conv_Cons
        feature_cols_def is_feature_dtype_def Let_def)
  from f have cols: "feature_cols cleaned \<noteq> []" by auto
  from n have rows: "0 < len_df cleaned" by simp
  from create_sequences_runs [OF rows cols, of
      "\<lparr> sequence_length = 8, forecast_horizon = 8, eng_scaler = None,
         feature_columns = None \<rparr>" True] n
  obtain self' X y T
    where "create_sequences \<lparr> sequence_length = 8, forecast_horizon = 8, eng_scaler = None,
                               feature_columns = None \<rparr> cleaned True = Inr (self', X, y, T)"
      and "X = []" "y = []" "T = []"
    by (auto simp: py_range_def split: if_splits)
  with c n empty show ?thesis
    by auto
qed

lemma scale_features_result:
  assumes "scale_features self fit_scaler F = Inr (self2, Z)"
  shows "\<exists>sc. eng_scaler self2 = Some sc \<and> scaler_transform sc F = Inr Z"
  using assms
  by (auto simp: scale_features_def scaler_fit_transform_def
      split: if_splits sum.splits option.splits)

lemma window_loop_lengths:
  "window_loop s h F ts is = Inr (X, y, T) \<Longrightarrow>
   length X = length is \<and> length y = length is \<and> (ts \<noteq> None \<longrightarrow> length T = length is)"
  by (induction "is" arbitrary: X y T)
    (auto simp: Let_def split: sum.splits option.splits prod.splits)

lemma window_loop_nth:
  "window_loop s h F ts is = Inr (X, y, T) \<Longrightarrow> k < length is \<Longrightarrow>
   (\<exists>row. py_index F (is ! k + s + h - 1) = Inr row \<and> py_index row 0 = Inr (y ! k))
   \<and> (\<forall>t. ts = Some t \<longrightarrow> py_index t (is ! k + s + h - 1) = Inr (T ! k))
   \<and> X ! k = py_slice F (is ! k) (is ! k + s)"
proof (induction "is" arbitrary: X y T k)
  case Nil
  then show ?case by simp
next
  case (Cons i rest)
  from Cons.prems(1) obtain row v stamps X' y' T'
    where row: "py_index F (i + s + h - 1) = Inr row" and v: "py_index row 0 = Inr v"
      and st: "(case ts of None \<Rightarrow> Inr []
                | Some t \<Rightarrow> (case py_index t (i + s + h - 1) of
                              Inl e \<Rightarrow> Inl e | Inr stamp \<Rightarrow> Inr [stamp])) = Inr stamps"
      and rec: "window_loop s h F ts rest = Inr (X', y', T')"
      and res: "X = py_slice F i (i + s) # X'" "y = v # y'" "T = stamps @ T'"
    by (auto simp: Let_def split: sum.splits prod.splits)
  show ?case
  proof (cases k)
    case 0
    with row v st res show ?thesis
      by (auto split: option.splits sum.splits)
  next
    case (Suc j)
    with Cons.prems(2) have j: "j < length rest" by simp
    from Cons.IH [OF rec j] Suc res st show ?thesis
      by (auto split: option.splits sum.splits)
  qed
qed

lemma py_index_nonneg:
  "py_index xs i = Inr v \<Longrightarrow> 0 \<le> i \<Longrightarrow> nat i < length xs \<and> v = xs ! nat i"
  by (auto simp: py_index_def Let_def split: if_splits)

text \<open>
  Claim C2. Whenever \<open>create_sequences\<close> returns, the target of window \<open>k\<close> is the
  entry in column 0 of row \<open>k + sequence_length + forecast_horizon - 1\<close> of the feature
  matrix standardized by the scaler that the engineer holds after the call, and the
  timestamp of window \<open>k\<close> is the frame's timestamp at that row. The row is read the way
  Python indexes; when \<open>sequence_length + forecast_horizon\<close> is at least 1 the index is
  not negative and is a row of the frame.
\<close>

theorem create_sequences_targets:
  assumes run: "create_sequences self df fit_scaler = Inr (self', X, y, T)"
    and k: "k < length y"
  shows "\<exists>sc Z row.
           eng_scaler self' = Some sc
           \<and> scaler_transform sc (frame_values (len_df df) (feature_cols df)) = Inr Z
           \<and> py_index Z (int k + sequence_length self + forecast_horizon self - 1) = Inr row
           \<and> py_index row 0 = Inr (y ! k)
           \<and> (\<forall>ts. timestamp df = Some ts \<longrightarrow>
                  py_index ts (int k + sequence_length self + forecast_horizon self - 1)
                  = Inr (T ! k))
           \<and> (1 \<le> sequence_length self + forecast_horizon self \<longrightarrow>
                  nat (int k + sequence_length self + forecast_horizon self - 1) < len_df df
                  \<and> y ! k = Z ! nat (int k + sequence_length self + forecast_horizon self - 1) ! 0
                  \<and> (\<forall>ts. timestamp df = Some ts \<longrightarrow>
                        T ! k = ts ! nat (int k + sequence_length self
                                          + forecast_horizon self - 1)))"
proof -
  let ?s = "sequence_length self" and ?h = "forecast_horizon self"
  let ?F = "frame_values (len_df df) (feature_cols df)"
  let ?is = "py_range (int (len_df df) - ?s - ?h + 1)"
  from run obtain self2 Z
    where sf: "scale_features (self\<lparr> feature_columns := Some (map col_name (feature_cols df)) \<rparr>)
                 fit_scaler ?F = Inr (self2, Z)"
      and wl: "window_loop ?s ?h Z (timestamp df) ?is = Inr (X, y, T)"
      and self': "self' = self2"
    by (auto simp: create_sequences_def Let_def split: sum.splits prod.splits)
  from scale_features_result [OF sf] self' obtain sc
    where sc: "eng_scaler self' = Some sc" and tr: "scaler_transform sc ?F = Inr Z"
    by blast
  from tr have lenZ: "length Z = len_df df"
    by (auto simp: scaler_transform_def check_array_def frame_values_def split: if_splits)
  from window_loop_lengths [OF wl] k have k': "k < length ?is"
    by simp
  then have ik: "?is ! k = int k"
    by (rule py_range_nth)
  from window_loop_nth [OF wl k'] ik obtain row
    where row: "py_index Z (int k + ?s + ?h - 1) = Inr row"
      and y: "py_index row 0 = Inr (y ! k)"
      and T: "\<forall>ts. timestamp df = Some ts \<longrightarrow> py_index ts (int k + ?s + ?h - 1) = Inr (T ! k)"
    by auto
  have plain: "nat (int k + ?s + ?h - 1) < len_df df
               \<and> y ! k = Z ! nat (int k + ?s + ?h - 1) ! 0
               \<and> (\<forall>ts. timestamp df = Some ts \<longrightarrow> T ! k = ts ! nat (int k + ?s + ?h - 1))"
    if pos: "1 \<le> ?s + ?h"
  proof -
    from pos have nn: "0 \<le> int k + ?s + ?h - 1" by simp
    from py_index_nonneg [OF row nn] lenZ
    have r: "nat (int k + ?s + ?h - 1) < len_df df" "row = Z ! nat (int k + ?s + ?h - 1)"
      by simp_all
    from py_index_nonneg [OF y] have "y ! k = row ! 0" by simp
    moreover have "T ! k = ts ! nat (int k + ?s + ?h - 1)" if "timestamp df = Some ts" for ts
      using T that py_index_nonneg [OF _ nn, of ts "T ! k"] by simp
    ultimately show ?thesis using r by simp
  qed
  from sc tr row y T plain show ?thesis
    by blast
qed

definition two_rows :: table where
  "two_rows =
     \<lparr> timestamp = Some [10, 20],
       columns = [\<lparr> col_name = ''temperature'', col_dtype = Float64,
                    col_values = [Some 0, Some 4] \<rparr>] \<rparr>"

lemma two_rows_run:
  "create_sequences \<lparr> sequence_length = 1, forecast_horizon = 1, eng_scaler = None,
                       feature_columns = None \<rparr> two_rows True
   = Inr (\<lparr> sequence_length = 1, forecast_horizon = 1,
             eng_scaler = Some \<lparr> scaler_mean = [Some 2], scaler_scale = [Some 2],
                                  n_features_in = 1 \<rparr>,
             feature_columns = Some [''temperature''] \<rparr>,
          [[[Some (- 1)]]], [Some 1], [20])"
  by (simp add: two_rows_def create_sequences_def feature_cols_def is_feature_dtype_def
      len_df_def frame_values_def scale_features_def scaler_fit_transform_def scaler_fit_def
      scaler_transform_def check_array_def n_cols_def column_def nan_mean_def present_def
      column_scale_def nan_var_def handle_zeros_in_scale_def standardize_row_def
      fsub_def fdiv_def py_range_def py_index_def py_slice_def upt_conv_Cons Let_def
      power2_eq_square)

theorem create_sequences_targets_witness:
  "\<exists>self' X y T.
     create_sequences \<lparr> sequence_length = 1, forecast_horizon = 1, eng_scaler = None,
                        feature_columns = None \<rparr> two_rows True = Inr (self', X, y, T)
     \<and> 0 < length y
     \<and> (\<exists>sc Z. eng_scaler self' = Some sc
           \<and> scaler_transform sc (frame_values (len_df two_rows) (feature_cols two_rows)) = Inr Z
           \<and> y ! 0 = Z ! 1 ! 0 \<and> T ! 0 = [10, 20] ! 1)"
  using two_rows_run create_sequences_targets [OF two_rows_run, of 0]
  by (auto simp: two_rows_def)

lemma create_sequences_mismatch:
  assumes sc: "eng_scaler self = Some sc"
    and ne: "length (feature_cols df) \<noteq> n_features_in sc"
  shows "create_sequences self df False = Inl ValueError"
proof -
  let ?F = "frame_values (len_df df) (feature_cols df)"
  have "scaler_transform sc ?F = Inl ValueError"
  proof (cases "0 < len_df df")
    case True
    with ne show ?thesis
      by (simp add: scaler_transform_mismatch n_cols_frame_values)
  next
    case False
    then show ?thesis
      by (simp add: scaler_transform_def check_array_def frame_values_def)
  qed
  with sc show ?thesis
    by (simp add: create_sequences_def scale_features_def Let_def)
qed

lemma predict_mismatch:
  "n_cols recent_data \<noteq> n_features_in (pred_scaler p) \<Longrightarrow>
   predict p recent_data = Inl ValueError"
  by (simp add: predict_def scaler_transform_mismatch)

lemma scaler_fit_n_features: "scaler_fit X = Inr sc \<Longrightarrow> n_features_in sc = n_cols X"
  by (auto simp: scaler_fit_def check_array_def split: if_splits)

text \<open>
  Claim C3. A scaler fitted on a matrix of one column count refuses every input of
  another column count: \<open>create_sequences\<close> with \<open>fit_scaler = False\<close> and
  \<open>predict\<close> both end with the scaler's \<open>ValueError\<close>, the exception that stands
  for the taxonomy's data error in this code, and return no result.
\<close>

theorem column_count_mismatch_raises:
  assumes fit: "scaler_fit fit_data = Inr sc"
  shows "(eng_scaler self = Some sc \<and> length (feature_cols df) \<noteq> n_cols fit_data
            \<longrightarrow> create_sequences self df False = Inl ValueError)
         \<and> (pred_scaler p = sc \<and> n_cols recent_data \<noteq> n_cols fit_data
            \<longrightarrow> predict p recent_data = Inl ValueError)"
  using scaler_fit_n_features [OF fit]
  by (auto intro: create_sequences_mismatch predict_mismatch)

theorem column_count_mismatch_raises_witness:
  "\<exists>sc. scaler_fit [[Some 0, Some 1, Some 2], [Some 4, Some 3, Some 2]] = Inr sc
     \<and> length (feature_cols two_rows) \<noteq> n_cols [[Some 0, Some 1, Some 2], [Some 4, Some 3, Some 2]]
     \<and> create_sequences \<lparr> sequence_length = 1, forecast_horizon = 1, eng_scaler = Some sc,
                           feature_columns = None \<rparr> two_rows False = Inl ValueError
     \<and> n_cols [[Some 1, Some 2]] \<noteq> n_cols [[Some 0, Some 1, Some 2], [Some 4, Some 3, Some 2]]
     \<and> predict \<lparr> model = (\<lambda>Z. Some 0), pred_scaler = sc,
                  pred_metadata = \<lparr> md_sequence_length = 1, md_forecast_horizon = 1,
                                    md_n_features = 3, md_feature_columns = [],
                                    md_train_samples = 0, md_val_samples = 0 \<rparr> \<rparr>
         [[Some 1, Some 2]] = Inl ValueError"
proof -
  obtain sc where fit: "scaler_fit [[Some 0, Some 1, Some 2], [Some 4, Some 3, Some 2]] = Inr sc"
    by (simp add: scaler_fit_def check_array_def n_cols_def)
  have a: "length (feature_cols two_rows)
           \<noteq> n_cols [[Some 0, Some 1, Some 2], [Some 4, Some (3::real), Some 2]]"
    and b: "n_cols [[Some 1, Some (2::real)]]
            \<noteq> n_cols [[Some 0, Some 1, Some 2], [Some 4, Some (3::real), Some 2]]"
    by (simp_all add: two_rows_def feature_cols_def is_feature_dtype_def n_cols_def)
  from column_count_mismatch_raises [OF fit, of
      "\<lparr> sequence_length = 1, forecast_horizon = 1, eng_scaler = Some sc,
         feature_columns = None \<rparr>" two_rows
      "\<lparr> model = (\<lambda>Z. Some 0), pred_scaler = sc,
         pred_metadata = \<lparr> md_sequence_length = 1, md_forecast_horizon = 1,
                           md_n_features = 3, md_feature_columns = [],
                           md_train_samples = 0, md_val_samples = 0 \<rparr> \<rparr>"
      "[[Some 1, Some 2]]"] fit a b
  show ?thesis by auto
qed

section \<open>Properties of prepare_data\<close>

lemma set_take_rows_sorting:
  assumes "sorts_timestamps argsort ts"
  shows "set (take_rows (argsort ts) ts) = set ts"
proof -
  from assms have "set (argsort ts) = {0..<length ts}"
    by (simp add: sorts_timestamps_def)
  then have "set (take_rows (argsort ts) ts) = (\<lambda>i. ts ! i) ` {0..<length ts}"
    by (simp add: take_rows_def)
  also have "\<dots> = set ts"
    by (auto simp: in_set_conv_nth)
  finally show ?thesis .
qed

lemma length_take_rows: "length (take_rows ix xs) = length ix"
  by (simp add: take_rows_def)

lemma first_occurrences_bound: "i \<in> set (first_occurrences ts) \<Longrightarrow> i < length ts"
  by (simp add: first_occurrences_def)

lemma first_occurrences_least:
  assumes "k < length (first_occurrences ts)"
  shows "first_occurrences ts ! k < length ts
         \<and> (\<forall>i < first_occurrences ts ! k. ts ! i \<noteq> ts ! (first_occurrences ts ! k))"
proof -
  from assms have "first_occurrences ts ! k \<in> set (first_occurrences ts)"
    by simp
  then show ?thesis
    by (auto simp: first_occurrences_def in_set_conv_nth)
qed

lemma set_first_occurrences:
  "set (take_rows (first_occurrences ts) ts) = set ts"
proof
  show "set (take_rows (first_occurrences ts) ts) \<subseteq> set ts"
    by (auto simp: take_rows_def first_occurrences_def)
  show "set ts \<subseteq> set (take_rows (first_occurrences ts) ts)"
  proof
    fix x assume "x \<in> set ts"
    then have ex: "\<exists>i. i < length ts \<and> ts ! i = x"
      by (simp add: in_set_conv_nth)
    define i where "i = (LEAST i. i < length ts \<and> ts ! i = x)"
    from LeastI_ex [OF ex] have i: "i < length ts" "ts ! i = x"
      by (simp_all add: i_def)
    have "ts ! j \<noteq> x" if "j < i" for j
      using not_less_Least [of j "\<lambda>i. i < length ts \<and> ts ! i = x"] that i
      by (auto simp: i_def)
    then have "x \<notin> set (take i ts)"
      by (auto simp: in_set_conv_nth)
    with i have "i \<in> set (first_occurrences ts)"
      by (simp add: first_occurrences_def)
    with i show "x \<in> set (take_rows (first_occurrences ts) ts)"
      by (force simp: take_rows_def)
  qed
qed

lemma sorted_wrt_first_occurrences: "sorted_wrt (<) (first_occurrences ts)"
  unfolding first_occurrences_def by (rule sorted_wrt_filter) simp

lemma distinct_first_occurrences:
  "distinct (take_rows (first_occurrences ts) ts)"
proof -
  have "inj_on (\<lambda>i. ts ! i) (set (first_occurrences ts))"
  proof (rule inj_onI)
    fix i j
    assume i: "i \<in> set (first_occurrences ts)" and j: "j \<in> set (first_occurrences ts)"
      and eq: "ts ! i = ts ! j"
    have no: "\<not> a < b" if "a \<in> set (first_occurrences ts)" "b \<in> set (first_occurrences ts)"
      "ts ! a = ts ! b" for a b
    proof
      assume "a < b"
      from that(2) have b: "b < length ts" "ts ! b \<notin> set (take b ts)"
        by (simp_all add: first_occurrences_def)
      with \<open>a < b\<close> have "ts ! a \<in> set (take b ts)"
        by (auto simp: in_set_conv_nth intro!: exI [of _ a])
      with that(3) b show False by simp
    qed
    from no [OF i j eq] no [OF j i eq [symmetric]] show "i = j"
      by simp
  qed
  moreover have "distinct (first_occurrences ts)"
    by (simp add: first_occurrences_def)
  ultimately show ?thesis
    by (simp add: take_rows_def distinct_map)
qed

lemma sorted_first_occurrences:
  assumes "sorted ts"
  shows "sorted (take_rows (first_occurrences ts) ts)"
proof -
  have "sorted_wrt (\<lambda>i j. ts ! i \<le> ts ! j) (first_occurrences ts)"
  proof (rule sorted_wrt_mono_rel [OF _ sorted_wrt_first_occurrences])
    fix i j
    assume "i \<in> set (first_occurrences ts)" "j \<in> set (first_occurrences ts)" "i < j"
    with assms show "ts ! i \<le> ts ! j"
      by (auto simp: sorted_iff_nth_mono_less dest: first_occurrences_bound)
  qed
  then show ?thesis
    by (simp add: take_rows_def sorted_map)
qed

lemma present_Cons [simp]:
  "present (None # xs) = present xs" "present (Some v # xs) = v # present xs"
  by (simp_all add: present_def)

lemma first_valid_Cons [simp]:
  "first_valid (None # xs) = first_valid xs" "first_valid (Some v # xs) = Some v"
  by (simp_all add: first_valid_def)

lemma last_valid_Nil [simp]: "last_valid [] = None"
  by (simp add: last_valid_def present_def)

lemma last_valid_Cons [simp]:
  "last_valid (None # xs) = last_valid xs"
  "last_valid (Some v # xs) = (case last_valid xs of None \<Rightarrow> Some v | Some w \<Rightarrow> Some w)"
  by (cases "present xs"; simp add: last_valid_def)+

lemma length_ffill [simp]: "length (ffill a xs) = length xs"
  by (induction a xs rule: ffill.induct) simp_all

lemma length_bfill [simp]: "length (bfill xs) = length xs"
  by (induction xs rule: bfill.induct) simp_all

lemma first_valid_ffill: "first_valid (ffill None xs) = first_valid xs"
proof (induction xs)
  case Nil
  show ?case by simp
next
  case (Cons x xs)
  then show ?case by (cases x) simp_all
qed

lemma bfill_ffill_nth:
  "i < length xs \<Longrightarrow>
   bfill (ffill a xs) ! i =
     (case last_valid (take (Suc i) xs) of
        Some x \<Rightarrow> Some x
      | None \<Rightarrow> (case a of Some v \<Rightarrow> Some v | None \<Rightarrow> first_valid xs))"
proof (induction xs arbitrary: a i)
  case Nil
  then show ?case by simp
next
  case (Cons x xs)
  show ?case
  proof (cases x)
    case (Some v)
    with Cons show ?thesis
      by (cases i) (simp_all split: option.splits)
  next
    case None
    show ?thesis
    proof (cases a)
      case (Some w)
      with None Cons show ?thesis
        by (cases i) (simp_all split: option.splits)
    next
      case aNone: None
      with None Cons show ?thesis
        by (cases i) (simp_all add: first_valid_ffill split: option.splits)
    qed
  qed
qed

lemma fillna_nth:
  "i < length xs \<Longrightarrow>
   bfill (ffill None xs) ! i =
     (case last_valid (take (Suc i) xs) of Some x \<Rightarrow> Some x | None \<Rightarrow> first_valid xs)"
  by (simp add: bfill_ffill_nth split: option.splits)

lemma set_column_keeps:
  "c \<in> set (columns df) \<Longrightarrow> col_name c \<noteq> name \<Longrightarrow>
   c \<in> set (columns (set_column name d vs df))"
  by (auto simp: set_column_def Let_def)

lemma timestamp_set_column [simp]: "timestamp (set_column name d vs df) = timestamp df"
  by (simp add: set_column_def Let_def)

lemma time_features_keeps:
  assumes "c \<in> set (columns df)" "col_name c \<notin> time_feature_names"
  shows "c \<in> set (columns (time_features dt_hour dt_dayofyear df))"
proof (cases "timestamp df")
  case None
  with assms show ?thesis by (simp add: time_features_def)
next
  case (Some ts)
  from assms(2) have "col_name c \<noteq> ''hour''" "col_name c \<noteq> ''day_of_year''"
    "col_name c \<noteq> ''hour_sin''" "col_name c \<noteq> ''hour_cos''"
    "col_name c \<noteq> ''day_sin''" "col_name c \<noteq> ''day_cos''"
    by (auto simp: time_feature_names_def)
  with assms(1) Some show ?thesis
    unfolding time_features_def by (simp add: Let_def set_column_keeps)
qed

lemma timestamp_time_features [simp]:
  "timestamp (time_features dt_hour dt_dayofyear df) = timestamp df"
  by (simp add: time_features_def Let_def split: option.splits)

lemma fill_numeric_column:
  "c \<in> set (columns df) \<Longrightarrow>
   (if is_number (col_dtype c) then c\<lparr> col_values := bfill (ffill None (col_values c)) \<rparr> else c)
     \<in> set (columns (fill_numeric df))"
  by (force simp: fill_numeric_def)

lemma timestamp_fill_numeric [simp]: "timestamp (fill_numeric df) = timestamp df"
  by (simp add: fill_numeric_def)

lemma reindex_column:
  "c \<in> set (columns df) \<Longrightarrow>
   c\<lparr> col_values := take_rows ix (col_values c) \<rparr> \<in> set (columns (reindex ix df))"
  by (force simp: reindex_def)

lemma timestamp_reindex [simp]:
  "timestamp (reindex ix df) = map_option (take_rows ix) (timestamp df)"
  by (simp add: reindex_def)

lemma len_df_reindex:
  "timestamp df = Some ts \<Longrightarrow> len_df (reindex ix df) = length ix"
  by (simp add: len_df_def reindex_def take_rows_def)

lemma reindex_empty_twice: "reindex [] (reindex [] df) = reindex [] df"
  by (cases "timestamp df") (simp_all add: reindex_def take_rows_def)

lemma prepare_data_unfold:
  assumes ts: "timestamp df = Some ts"
  shows "prepare_data argsort dt_hour dt_dayofyear df
         = Inr (fill_numeric (time_features dt_hour dt_dayofyear
                  (reindex (first_occurrences (take_rows (argsort ts) ts))
                     (reindex (argsort ts) df))))"
proof (cases "argsort ts = []")
  case True
  then have "first_occurrences (take_rows (argsort ts) ts) = []"
    by (simp add: first_occurrences_def take_rows_def)
  with True ts show ?thesis
    by (simp add: prepare_data_def sort_values_def drop_duplicates_def
        len_df_reindex [OF ts] reindex_empty_twice)
next
  case False
  with ts show ?thesis
    by (simp add: prepare_data_def sort_values_def drop_duplicates_def
        len_df_reindex [OF ts])
qed

lemma prepare_data_column:
  assumes c: "c \<in> set (columns df)" and name: "col_name c \<notin> time_feature_names"
  shows "(let v = take_rows keep (take_rows ix (col_values c))
          in if is_number (col_dtype c) then c\<lparr> col_values := bfill (ffill None v) \<rparr>
             else c\<lparr> col_values := v \<rparr>)
         \<in> set (columns (fill_numeric (time_features dt_hour dt_dayofyear
                            (reindex keep (reindex ix df)))))"
proof -
  let ?c2 = "c\<lparr> col_values := take_rows keep (take_rows ix (col_values c)) \<rparr>"
  from reindex_column [OF reindex_column [OF c, of ix], of keep]
  have "?c2 \<in> set (columns (reindex keep (reindex ix df)))"
    by simp
  moreover from name have "col_name ?c2 \<notin> time_feature_names"
    by simp
  ultimately have "?c2 \<in> set (columns (time_features dt_hour dt_dayofyear
                                         (reindex keep (reindex ix df))))"
    by (rule time_features_keeps)
  from fill_numeric_column [OF this] show ?thesis
    by (simp add: Let_def split: if_splits)
qed

lemma first_occurrences_first:
  "k < length (first_occurrences ts) \<Longrightarrow> i < first_occurrences ts ! k \<Longrightarrow>
   ts ! i \<noteq> take_rows (first_occurrences ts) ts ! k"
  using first_occurrences_least [of k ts] by (simp add: take_rows_def)

lemma prepare_data_result:
  assumes ts: "timestamp df = Some ts" and srt: "sorts_timestamps argsort ts"
  shows "\<exists>out sorted_ts keep kept_ts.
           prepare_data argsort dt_hour dt_dayofyear df = Inr out
           \<and> sorted_ts = take_rows (argsort ts) ts \<and> sorted sorted_ts
           \<and> keep = first_occurrences sorted_ts \<and> kept_ts = take_rows keep sorted_ts
           \<and> timestamp out = Some kept_ts
           \<and> sorted kept_ts \<and> distinct kept_ts \<and> set kept_ts = set ts
           \<and> (\<forall>k < length keep. \<forall>i < keep ! k. sorted_ts ! i \<noteq> kept_ts ! k)
           \<and> (\<forall>c \<in> set (columns df). col_name c \<notin> time_feature_names \<longrightarrow>
                 (\<exists>c' \<in> set (columns out).
                    col_name c' = col_name c \<and> col_dtype c' = col_dtype c
                    \<and> length (col_values c') = length keep
                    \<and> (\<forall>k < length keep.
                          col_values c' ! k =
                            (let v = take_rows keep (take_rows (argsort ts) (col_values c))
                             in if is_number (col_dtype c)
                                then (case last_valid (take (Suc k) v) of
                                        Some x \<Rightarrow> Some x
                                      | None \<Rightarrow> first_valid v)
                                else v ! k))))"
proof -
  let ?sorted_ts = "take_rows (argsort ts) ts"
  let ?keep = "first_occurrences ?sorted_ts"
  let ?kept_ts = "take_rows ?keep ?sorted_ts"
  let ?out = "fill_numeric (time_features dt_hour dt_dayofyear
                (reindex ?keep (reindex (argsort ts) df)))"
  have run: "prepare_data argsort dt_hour dt_dayofyear df = Inr ?out"
    by (rule prepare_data_unfold [OF ts])
  from srt have s1: "sorted ?sorted_ts"
    by (simp add: sorts_timestamps_def)
  have stamp: "timestamp ?out = Some ?kept_ts"
    using ts by simp
  have s2: "sorted ?kept_ts"
    by (rule sorted_first_occurrences [OF s1])
  have d: "distinct ?kept_ts"
    by (rule distinct_first_occurrences)
  have st: "set ?kept_ts = set ts"
    using set_first_occurrences [of ?sorted_ts] set_take_rows_sorting [OF srt] by simp
  have first: "\<forall>k < length ?keep. \<forall>i < ?keep ! k. ?sorted_ts ! i \<noteq> ?kept_ts ! k"
    using first_occurrences_first [of _ ?sorted_ts] by (intro allI impI)
  have cols: "\<exists>c' \<in> set (columns ?out).
                col_name c' = col_name c \<and> col_dtype c' = col_dtype c
                \<and> length (col_values c') = length ?keep
                \<and> (\<forall>k < length ?keep.
                      col_values c' ! k =
                        (let v = take_rows ?keep (take_rows (argsort ts) (col_values c))
                         in if is_number (col_dtype c)
                            then (case last_valid (take (Suc k) v) of
                                    Some x \<Rightarrow> Some x
                                  | None \<Rightarrow> first_valid v)
                            else v ! k))"
    if c: "c \<in> set (columns df)" and name: "col_name c \<notin> time_feature_names" for c
  proof -
    let ?v = "take_rows ?keep (take_rows (argsort ts) (col_values c))"
    let ?c' = "if is_number (col_dtype c) then c\<lparr> col_values := bfill (ffill None ?v) \<rparr>
               else c\<lparr> col_values := ?v \<rparr>"
    from prepare_data_column [OF c name, of ?keep "argsort ts" dt_hour dt_dayofyear]
    have mem: "?c' \<in> set (columns ?out)"
      by (simp add: Let_def)
    have len: "length ?v = length ?keep"
      by (simp add: length_take_rows)
    have "col_name ?c' = col_name c \<and> col_dtype ?c' = col_dtype c
          \<and> length (col_values ?c') = length ?keep
          \<and> (\<forall>k < length ?keep.
                col_values ?c' ! k =
                  (let v = ?v
                   in if is_number (col_dtype c)
                      then (case last_valid (take (Suc k) v) of
                              Some x \<Rightarrow> Some x
                            | None \<Rightarrow> first_valid v)
                      else v ! k))"
      using len by (simp add: Let_def fillna_nth)
    with mem show ?thesis by blast
  qed
  from run s1 stamp s2 d st first cols show ?thesis
    by blast
qed

lemma len_df_fill_numeric_empty:
  assumes "timestamp df = None" and "len_df df = 0"
  shows "len_df (fill_numeric df) = 0"
  using assms by (cases "columns df") (simp_all add: len_df_def fill_numeric_def)

lemma create_sequences_no_rows:
  assumes "len_df df = 0"
  shows "\<exists>e. create_sequences self df fit_scaler = Inl e"
  using assms
  by (simp add: create_sequences_def scale_features_def scaler_fit_transform_def
      scaler_fit_def scaler_transform_def check_array_def frame_values_def Let_def
      split: option.splits)

lemma prepare_then_window_fails:
  assumes none: "timestamp df = None"
  shows "(\<exists>e. prepare_then_window argsort dt_hour dt_dayofyear self df fit_scaler = Inl e)
         \<and> (0 < len_df df \<longrightarrow> prepare_data argsort dt_hour dt_dayofyear df = Inl KeyError)"
proof (cases "len_df df = 0")
  case True
  with none have "prepare_data argsort dt_hour dt_dayofyear df = Inr (fill_numeric df)"
    by (simp add: prepare_data_def drop_duplicates_def time_features_def)
  moreover from len_df_fill_numeric_empty [OF none True]
  have "\<exists>e. create_sequences self (fill_numeric df) fit_scaler = Inl e"
    by (rule create_sequences_no_rows)
  ultimately show ?thesis
    using True by (auto simp: prepare_then_window_def)
next
  case False
  with none have "prepare_data argsort dt_hour dt_dayofyear df = Inl KeyError"
    by (simp add: prepare_data_def drop_duplicates_def)
  then show ?thesis
    by (simp add: prepare_then_window_def)
qed

text \<open>
  Claim C8. On a table without a timestamp column, preparing the table and then
  requesting the windows fails, whatever the table, the engineer and \<open>fit_scaler\<close>:
  on a table that has a row \<open>prepare_data\<close> itself raises \<open>KeyError\<close>, at
  \<open>drop_duplicates\<close>, and a table without rows is refused by the scaler when the
  windows are requested. On a table that has a timestamp column, \<open>prepare_data\<close>
  succeeds; the timestamps of its result are those of the table in ascending order
  without repetition; of the rows that share a timestamp it keeps the one that comes
  first in the sorted table; and in every numeric column that it keeps, a cell takes the
  last value present at or before its row and, when there is none, the first value
  present in the column.
\<close>

theorem timestamp_column_handling:
  assumes wf: "wf_table df"
  shows "(timestamp df = None \<longrightarrow>
           (\<exists>e. prepare_then_window argsort dt_hour dt_dayofyear self df fit_scaler = Inl e)
           \<and> (0 < len_df df \<longrightarrow>
                prepare_data argsort dt_hour dt_dayofyear df = Inl KeyError))
         \<and> (\<forall>ts. timestamp df = Some ts \<and> sorts_timestamps argsort ts \<longrightarrow>
           (\<exists>out sorted_ts keep kept_ts.
              prepare_data argsort dt_hour dt_dayofyear df = Inr out
              \<and> sorted_ts = take_rows (argsort ts) ts \<and> sorted sorted_ts
              \<and> keep = first_occurrences sorted_ts \<and> kept_ts = take_rows keep sorted_ts
              \<and> timestamp out = Some kept_ts
              \<and> sorted kept_ts \<and> distinct kept_ts \<and> set kept_ts = set ts
              \<and> (\<forall>k < length keep. \<forall>i < keep ! k. sorted_ts ! i \<noteq> kept_ts ! k)
              \<and> (\<forall>c \<in> set (columns df). col_name c \<notin> time_feature_names \<longrightarrow>
                    (\<exists>c' \<in> set (columns out).
                       col_name c' = col_name c \<and> col_dtype c' = col_dtype c
                       \<and> length (col_values c') = length keep
                       \<and> (\<forall>k < length keep.
                             col_values c' ! k =
                               (let v = take_rows keep (take_rows (argsort ts) (col_values c))
                                in if is_number (col_dtype c)
                                   then (case last_valid (take (Suc k) v) of
                                           Some x \<Rightarrow> Some x
                                         | None \<Rightarrow> first_valid v)
                                   else v ! k))))))"
proof (intro conjI allI impI)
  assume none: "timestamp df = None"
  from prepare_then_window_fails [OF none]
  show "\<exists>e. prepare_then_window argsort dt_hour dt_dayofyear self df fit_scaler = Inl e"
    by blast
  assume "0 < len_df df"
  with prepare_then_window_fails [OF none]
  show "prepare_data argsort dt_hour dt_dayofyear df = Inl KeyError"
    by blast
next
  fix ts
  assume "timestamp df = Some ts \<and> sorts_timestamps argsort ts"
  then have ts: "timestamp df = Some ts" and srt: "sorts_timestamps argsort ts"
    by simp_all
  from prepare_data_result [OF ts srt]
  show "\<exists>out sorted_ts keep kept_ts.
          prepare_data argsort dt_hour dt_dayofyear df = Inr out
          \<and> sorted_ts = take_rows (argsort ts) ts \<and> sorted sorted_ts
          \<and> keep = first_occurrences sorted_ts \<and> kept_ts = take_rows keep sorted_ts
          \<and> timestamp out = Some kept_ts
          \<and> sorted kept_ts \<and> distinct kept_ts \<and> set kept_ts = set ts
          \<and> (\<forall>k < length keep. \<forall>i < keep ! k. sorted_ts ! i \<noteq> kept_ts ! k)
          \<and> (\<forall>c \<in> set (columns df). col_name c \<notin> time_feature_names \<longrightarrow>
                (\<exists>c' \<in> set (columns out).
                   col_name c' = col_name c \<and> col_dtype c' = col_dtype c
                   \<and> length (col_values c') = length keep
                   \<and> (\<forall>k < length keep.
                         col_values c' ! k =
                           (let v = take_rows keep (take_rows (argsort ts) (col_values c))
                            in if is_number (col_dtype c)
                               then (case last_valid (take (Suc k) v) of
                                       Some x \<Rightarrow> Some x
                                     | None \<Rightarrow> first_valid v)
                               else v ! k))))" .
qed

definition raw_frame :: table where
  "raw_frame =
     \<lparr> timestamp = Some [3, 1, 3, 2, 4],
       columns = [\<lparr> col_name = ''temperature'', col_dtype = Float64,
                    col_values = [Some 30, None, Some 33, Some 20, None] \<rparr>] \<rparr>"

lemma raw_frame_argsort: "stable_argsort [3, 1, 3, 2, 4] = [1, 3, 0, 2, 4]"
  by (simp add: stable_argsort_def upt_conv_Cons)

lemma raw_frame_keep: "first_occurrences [1, 2, 3, 3, 4] = [0, 1, 2, 4]"
  by (simp add: first_occurrences_def upt_conv_Cons)

definition no_timestamp_frame :: table where
  "no_timestamp_frame =
     \<lparr> timestamp = None,
       columns = [\<lparr> col_name = ''temperature'', col_dtype = Float64,
                    col_values = [Some 0, Some 4] \<rparr>] \<rparr>"

theorem timestamp_column_handling_witness:
  "wf_table raw_frame \<and> timestamp raw_frame = Some [3, 1, 3, 2, 4]
   \<and> sorts_timestamps stable_argsort [3, 1, 3, 2, 4]
   \<and> (\<exists>out. prepare_data stable_argsort (\<lambda>t. t mod 24) (\<lambda>t. 1) raw_frame = Inr out
         \<and> timestamp out = Some [1, 2, 3, 4]
         \<and> (\<exists>c' \<in> set (columns out). col_name c' = ''temperature''
               \<and> col_values c' ! 0 = Some 20 \<and> col_values c' ! 1 = Some 20
               \<and> col_values c' ! 2 = Some 30 \<and> col_values c' ! 3 = Some 30))
   \<and> wf_table no_timestamp_frame \<and> timestamp no_timestamp_frame = None
   \<and> 0 < len_df no_timestamp_frame
   \<and> prepare_data stable_argsort (\<lambda>t. t mod 24) (\<lambda>t. 1) no_timestamp_frame = Inl KeyError
   \<and> prepare_then_window stable_argsort (\<lambda>t. t mod 24) (\<lambda>t. 1)
        \<lparr> sequence_length = 1, forecast_horizon = 1, eng_scaler = None,
          feature_columns = None \<rparr> no_timestamp_frame True = Inl KeyError"
proof -
  have wf: "wf_table raw_frame"
    by (simp add: raw_frame_def wf_table_def len_df_def)
  have ts: "timestamp raw_frame = Some [3, 1, 3, 2, 4]"
    by (simp add: raw_frame_def)
  have srt: "sorts_timestamps stable_argsort [3, 1, 3, 2, 4]"
    by (auto simp: sorts_timestamps_def raw_frame_argsort take_rows_def)
  have c: "\<lparr> col_name = ''temperature'', col_dtype = Float64,
             col_values = [Some 30, None, Some 33, Some 20, None] \<rparr> \<in> set (columns raw_frame)"
    and n: "''temperature'' \<notin> time_feature_names"
    by (simp_all add: raw_frame_def time_feature_names_def)
  from timestamp_column_handling [OF wf, where argsort = stable_argsort
      and dt_hour = "\<lambda>t. t mod 24" and dt_dayofyear = "\<lambda>t. 1",
      THEN conjunct2, rule_format, OF conjI [OF ts srt]]
  obtain out sorted_ts keep kept_ts
    where run: "prepare_data stable_argsort (\<lambda>t. t mod 24) (\<lambda>t. 1) raw_frame = Inr out"
      and sorted_ts: "sorted_ts = take_rows (stable_argsort [3, 1, 3, 2, 4]) [3, 1, 3, 2, 4]"
      and keep: "keep = first_occurrences sorted_ts"
      and kept_ts: "kept_ts = take_rows keep sorted_ts"
      and stamp: "timestamp out = Some kept_ts"
      and cols: "\<forall>c \<in> set (columns raw_frame). col_name c \<notin> time_feature_names \<longrightarrow>
                 (\<exists>c' \<in> set (columns out).
                    col_name c' = col_name c \<and> col_dtype c' = col_dtype c
                    \<and> length (col_values c') = length keep
                    \<and> (\<forall>k < length keep.
                          col_values c' ! k =
                            (let v = take_rows keep
                                       (take_rows (stable_argsort [3, 1, 3, 2, 4]) (col_values c))
                             in if is_number (col_dtype c)
                                then (case last_valid (take (Suc k) v) of
                                        Some x \<Rightarrow> Some x
                                      | None \<Rightarrow> first_valid v)
                                else v ! k)))"
    by blast
  have sorted_ts': "sorted_ts = [1, 2, 3, 3, 4]"
    by (simp add: sorted_ts raw_frame_argsort take_rows_def)
  have keep': "keep = [0, 1, 2, 4]"
    by (simp add: keep sorted_ts' raw_frame_keep)
  have stamp': "timestamp out = Some [1, 2, 3, 4]"
    by (simp add: stamp kept_ts keep' sorted_ts' take_rows_def)
  from cols [rule_format, OF c] n obtain c'
    where c': "c' \<in> set (columns out)" "col_name c' = ''temperature''"
      and vals: "\<forall>k < 4. col_values c' ! k =
                 (case last_valid (take (Suc k) [None, Some 20, Some 30, None]) of
                    Some x \<Rightarrow> Some x
                  | None \<Rightarrow> first_valid [None, Some 20, Some 30, None])"
    by (auto simp: keep' raw_frame_argsort take_rows_def is_number_def)
  from vals have "col_values c' ! 0 = Some 20" "col_values c' ! 1 = Some 20"
    "col_values c' ! 2 = Some 30" "col_values c' ! 3 = Some 30"
    by (simp_all add: numeral_3_eq_3 numeral_2_eq_2)
  with run stamp' c'
  have first: "\<exists>out. prepare_data stable_argsort (\<lambda>t. t mod 24) (\<lambda>t. 1) raw_frame = Inr out
         \<and> timestamp out = Some [1, 2, 3, 4]
         \<and> (\<exists>c' \<in> set (columns out). col_name c' = ''temperature''
               \<and> col_values c' ! 0 = Some 20 \<and> col_values c' ! 1 = Some 20
               \<and> col_values c' ! 2 = Some 30 \<and> col_values c' ! 3 = Some 30)"
    by blast
  have wf2: "wf_table no_timestamp_frame"
    and none: "timestamp no_timestamp_frame = None"
    and rows: "0 < len_df no_timestamp_frame"
    by (simp_all add: no_timestamp_frame_def wf_table_def len_df_def)
  from timestamp_column_handling [OF wf2, where argsort = stable_argsort
      and dt_hour = "\<lambda>t. t mod 24" and dt_dayofyear = "\<lambda>t. 1",
      THEN conjunct1, rule_format, OF none] rows
  have key: "prepare_data stable_argsort (\<lambda>t. t mod 24) (\<lambda>t. 1) no_timestamp_frame
             = Inl KeyError"
    by blast
  then have pipe: "prepare_then_window stable_argsort (\<lambda>t. t mod 24) (\<lambda>t. 1)
        \<lparr> sequence_length = 1, forecast_horizon = 1, eng_scaler = None,
          feature_columns = None \<rparr> no_timestamp_frame True = Inl KeyError"
    by (simp add: prepare_then_window_def)
  from wf ts srt first wf2 none rows key pipe show ?thesis
    by (intro conjI)
qed

section \<open>Properties of the predictor\<close>

lemma inverse_dummy:
  assumes "fitted sc"
  shows "scaler_inverse_transform sc [(replicate (n_features_in sc) (Some 0))[0 := v]]
         = Inr [unstandardize_row sc ((replicate (n_features_in sc) (Some 0))[0 := v])]"
  using assms by (simp add: scaler_inverse_transform_def check_array_def n_cols_def fitted_def)

lemma unstandardize_dummy_0:
  assumes "fitted sc"
  shows "unstandardize_row sc ((replicate (n_features_in sc) (Some 0))[0 := v]) ! 0
         = fadd (fmul v (scaler_scale sc ! 0)) (scaler_mean sc ! 0)"
  using assms by (simp add: unstandardize_row_def fitted_def)

text \<open>
  Claim C7. On a window that the scaler accepts, \<open>predict\<close> standardizes the window,
  puts the model's scalar at index 0 of a zero vector of \<open>n_features_in_\<close> entries,
  applies the inverse transform to it and takes entry 0 as the Celsius value, which is
  \<open>scalar * scale_0 + mean_0\<close>; Fahrenheit is \<open>celsius * 9 / 5 + 32\<close>, and
  \<open>forecast_hours\<close> is three times the forecast horizon of the checkpoint's metadata.
\<close>

theorem predict_recovers_celsius:
  assumes fit: "fitted (pred_scaler p)" and rows: "recent_data \<noteq> []"
    and cols: "n_cols recent_data = n_features_in (pred_scaler p)"
  shows "\<exists>scaled unscaled r.
           scaler_transform (pred_scaler p) recent_data = Inr scaled
           \<and> scaler_inverse_transform (pred_scaler p)
                [(replicate (n_features_in (pred_scaler p)) (Some 0))[0 := model p scaled]]
               = Inr unscaled
           \<and> predict p recent_data = Inr r
           \<and> temperature_celsius r = unscaled ! 0 ! 0
           \<and> temperature_celsius r
               = fadd (fmul (model p scaled) (scaler_scale (pred_scaler p) ! 0))
                   (scaler_mean (pred_scaler p) ! 0)
           \<and> temperature_fahrenheit r
               = fadd (fdiv (fmul (temperature_celsius r) (Some 9)) (Some 5)) (Some 32)
           \<and> forecast_hours r = md_forecast_horizon (pred_metadata p) * 3"
proof -
  from fit have pos: "0 < n_features_in (pred_scaler p)"
    by (simp add: fitted_def)
  with rows cols
  have tr: "scaler_transform (pred_scaler p) recent_data
            = Inr (map (standardize_row (pred_scaler p)) recent_data)"
    by (simp add: scaler_transform_ok)
  show ?thesis
    using pos tr inverse_dummy [OF fit] unstandardize_dummy_0 [OF fit]
    by (simp add: predict_def Let_def)
qed

theorem predict_recovers_celsius_witness:
  "fitted \<lparr> scaler_mean = [Some 20, Some 50], scaler_scale = [Some 5, Some 10],
            n_features_in = 2 \<rparr>
   \<and> (\<exists>r. predict \<lparr> model = (\<lambda>Z. Some 1),
                     pred_scaler = \<lparr> scaler_mean = [Some 20, Some 50],
                                     scaler_scale = [Some 5, Some 10], n_features_in = 2 \<rparr>,
                     pred_metadata = \<lparr> md_sequence_length = 1, md_forecast_horizon = 8,
                                       md_n_features = 2, md_feature_columns = [],
                                       md_train_samples = 0, md_val_samples = 0 \<rparr> \<rparr>
              [[Some 25, Some 60]] = Inr r
          \<and> temperature_celsius r = Some 25 \<and> temperature_fahrenheit r = Some 77
          \<and> forecast_hours r = 24)"
proof -
  let ?p = "\<lparr> model = (\<lambda>Z. Some 1),
                     pred_scaler = \<lparr> scaler_mean = [Some 20, Some 50],
                                     scaler_scale = [Some 5, Some 10], n_features_in = 2 \<rparr>,
                     pred_metadata = \<lparr> md_sequence_length = 1, md_forecast_horizon = 8,
                                       md_n_features = 2, md_feature_columns = [],
                                       md_train_samples = 0, md_val_samples = 0 \<rparr> \<rparr>"
  have f: "fitted (pred_scaler ?p)"
    by (simp add: fitted_def)
  have "[[Some 25, Some (60::real)]] \<noteq> []"
    and "n_cols [[Some 25, Some 60]] = n_features_in (pred_scaler ?p)"
    by (simp_all add: n_cols_def)
  from predict_recovers_celsius [OF f this]
  obtain r where "predict ?p [[Some 25, Some 60]] = Inr r"
    and "temperature_celsius r = fadd (fmul (Some 1) (Some 5)) (Some 20)"
    and "temperature_fahrenheit r
         = fadd (fdiv (fmul (temperature_celsius r) (Some 9)) (Some 5)) (Some 32)"
    and "forecast_hours r = 8 * 3"
    by auto
  then show ?thesis
    using f by (simp add: fadd_def fmul_def fdiv_def)
qed

text \<open>
  Claim C10. \<open>predict_from_sequence\<close> returns what \<open>predict\<close> returns on the same
  input; in particular its input, documented as already scaled, is standardized by the
  loaded scaler once more before the model sees it.
\<close>

theorem predict_from_sequence_rescales:
  "predict_from_sequence p sequence = predict p sequence
   \<and> (\<forall>r. predict_from_sequence p sequence = Inr r \<longrightarrow>
          (\<exists>scaled unscaled.
             scaler_transform (pred_scaler p) sequence = Inr scaled
             \<and> scaler_inverse_transform (pred_scaler p)
                  [(replicate (n_features_in (pred_scaler p)) (Some 0))[0 := model p scaled]]
                 = Inr unscaled
             \<and> temperature_celsius r = unscaled ! 0 ! 0))"
  by (auto simp: predict_from_sequence_def predict_def Let_def split: sum.splits if_splits)

theorem predict_from_sequence_rescales_witness:
  "\<exists>r. predict_from_sequence
          \<lparr> model = (\<lambda>Z. Z ! 0 ! 0),
            pred_scaler = \<lparr> scaler_mean = [Some 20], scaler_scale = [Some 5],
                            n_features_in = 1 \<rparr>,
            pred_metadata = \<lparr> md_sequence_length = 1, md_forecast_horizon = 8,
                              md_n_features = 1, md_feature_columns = [],
                              md_train_samples = 0, md_val_samples = 0 \<rparr> \<rparr>
          [[Some 1]] = Inr r
       \<and> scaler_transform \<lparr> scaler_mean = [Some 20], scaler_scale = [Some 5],
                            n_features_in = 1 \<rparr> [[Some 1]] = Inr [[Some (- 19 / 5)]]
       \<and> temperature_celsius r = Some 1"
proof -
  let ?p = "\<lparr> model = (\<lambda>Z. Z ! 0 ! 0),
             pred_scaler = \<lparr> scaler_mean = [Some 20], scaler_scale = [Some 5],
                             n_features_in = 1 \<rparr>,
             pred_metadata = \<lparr> md_sequence_length = 1, md_forecast_horizon = 8,
                               md_n_features = 1, md_feature_columns = [],
                               md_train_samples = 0, md_val_samples = 0 \<rparr> \<rparr>"
  from predict_from_sequence_rescales [of ?p "[[Some 1]]"]
  have "predict_from_sequence ?p [[Some 1]] = predict ?p [[Some 1]]"
    by blast
  then show ?thesis
    by (simp add: predict_def scaler_transform_def scaler_inverse_transform_def
        check_array_def n_cols_def standardize_row_def unstandardize_row_def
        fsub_def fdiv_def fmul_def fadd_def Let_def)
qed

section \<open>Properties of the training loop\<close>

text \<open>
  A small run for the examples: the weights count the epochs trained, and the validation
  losses of the five epochs are 3, 2, 2, 5 and 1, with a patience of 2.
\<close>

definition demo_train_epoch :: "nat \<times> unit \<Rightarrow> (nat \<times> unit) \<times> real" where
  "demo_train_epoch l = ((Suc (fst l), ()), 1)"

definition demo_validate :: "nat \<Rightarrow> real" where
  "demo_validate w = [3, 2, 2, 5, 1] ! (w - 1)"

definition demo_args :: train_args where
  "demo_args =
     \<lparr> args_hidden_size = 64, args_num_layers = 2, args_dropout = 1 / 5, args_epochs = 5,
       args_patience = 2 \<rparr>"

definition demo_metadata :: metadata where
  "demo_metadata =
     \<lparr> md_sequence_length = 8, md_forecast_horizon = 8, md_n_features = 6,
       md_feature_columns = [], md_train_samples = 4, md_val_samples = 1 \<rparr>"

lemma trace_step:
  "Suc k < length (st # training_trace te va args md es st) \<Longrightarrow>
   k < length es
   \<and> (st # training_trace te va args md es st) ! Suc k
     = fst (epoch_body te va args md (es ! k) ((st # training_trace te va args md es st) ! k))"
proof (induction es arbitrary: st k)
  case Nil
  then show ?case by simp
next
  case (Cons e rest)
  obtain st' brk where body: "epoch_body te va args md e st = (st', brk)"
    by (cases "epoch_body te va args md e st")
  show ?case
  proof (cases k)
    case 0
    with body show ?thesis by (cases brk) simp_all
  next
    case (Suc j)
    with Cons.prems body have nb: "\<not> brk"
      by (cases brk) simp_all
    with Cons.prems body Suc
    have "Suc j < length (st' # training_trace te va args md rest st')"
      by simp
    from Cons.IH [OF this] body nb Suc show ?thesis
      by simp
  qed
qed

lemma training_loop_final:
  "fst (training_loop te va args md es st) = last (st # training_trace te va args md es st)"
proof (induction es arbitrary: st)
  case Nil
  show ?case by simp
next
  case (Cons e rest)
  obtain st' brk where body: "epoch_body te va args md e st = (st', brk)"
    by (cases "epoch_body te va args md e st")
  with Cons [of st'] show ?case
    by (cases brk) simp_all
qed

lemma epoch_body_step:
  assumes "st' = fst (epoch_body te va args md e st)"
  shows "validate_after = va (weights st') \<Longrightarrow>
         best_le (best_val_loss st') (best_val_loss st)
         \<and> (if loss_less validate_after (best_val_loss st)
            then best_val_loss st' = Some validate_after \<and> patience_counter st' = 0
                 \<and> best_model_pth st'
                   = \<lparr> ckpt_epoch = e, model_state_dict = weights st',
                       optimizer_state_dict = optimizer st',
                       train_loss = snd (te (weights st, optimizer st)),
                       val_loss = validate_after, ckpt_metadata = md,
                       ckpt_model_config =
                         \<lparr> input_size = md_n_features md,
                           hidden_size = args_hidden_size args,
                           num_layers = args_num_layers args,
                           dropout = args_dropout args \<rparr> \<rparr>
                     # best_model_pth st
            else best_val_loss st' = best_val_loss st
                 \<and> patience_counter st' = patience_counter st + 1
                 \<and> best_model_pth st' = best_model_pth st)"
  using assms
  by (auto simp: epoch_body_def Let_def loss_less_def best_le_def
      split: prod.splits option.splits)

text \<open>
  Claim C4. Along the states of a training run, from one epoch to the next
  \<open>best_val_loss\<close> never increases. In an epoch whose validation loss is strictly below
  \<open>best_val_loss\<close>, the loss becomes the new \<open>best_val_loss\<close>, the patience counter
  is reset to 0 and one checkpoint is written, holding the weights, the optimizer state,
  the configuration, the metadata, the epoch and both losses. In every other epoch the
  file is not written, \<open>best_val_loss\<close> stays and the counter grows by one.
\<close>

theorem checkpoint_only_on_improvement:
  "\<forall>k. Suc k < length (initial_state w0 opt0 file0
                       # training_trace train_epoch validate args md (epochs_range args)
                           (initial_state w0 opt0 file0)) \<longrightarrow>
     (let tr = initial_state w0 opt0 file0
               # training_trace train_epoch validate args md (epochs_range args)
                   (initial_state w0 opt0 file0);
          st = tr ! k; st' = tr ! Suc k; vl = validate (weights st')
      in best_le (best_val_loss st') (best_val_loss st)
         \<and> (if loss_less vl (best_val_loss st)
            then best_val_loss st' = Some vl \<and> patience_counter st' = 0
                 \<and> best_model_pth st'
                   = \<lparr> ckpt_epoch = k, model_state_dict = weights st',
                       optimizer_state_dict = optimizer st',
                       train_loss = snd (train_epoch (weights st, optimizer st)),
                       val_loss = vl, ckpt_metadata = md,
                       ckpt_model_config =
                         \<lparr> input_size = md_n_features md,
                           hidden_size = args_hidden_size args,
                           num_layers = args_num_layers args,
                           dropout = args_dropout args \<rparr> \<rparr>
                     # best_model_pth st
            else best_val_loss st' = best_val_loss st
                 \<and> patience_counter st' = patience_counter st + 1
                 \<and> best_model_pth st' = best_model_pth st))"
proof (intro allI impI)
  fix k
  let ?st0 = "initial_state w0 opt0 file0"
  let ?tr = "?st0 # training_trace train_epoch validate args md (epochs_range args) ?st0"
  assume "Suc k < length ?tr"
  from trace_step [OF this]
  have k: "k < length (epochs_range args)"
    and step: "?tr ! Suc k
               = fst (epoch_body train_epoch validate args md (epochs_range args ! k) (?tr ! k))"
    by simp_all
  from k have "epochs_range args ! k = k"
    by (simp add: epochs_range_def)
  with step have "?tr ! Suc k = fst (epoch_body train_epoch validate args md k (?tr ! k))"
    by simp
  from epoch_body_step [OF this refl] show "let tr = ?tr; st = tr ! k; st' = tr ! Suc k;
        vl = validate (weights st')
      in best_le (best_val_loss st') (best_val_loss st)
         \<and> (if loss_less vl (best_val_loss st)
            then best_val_loss st' = Some vl \<and> patience_counter st' = 0
                 \<and> best_model_pth st'
                   = \<lparr> ckpt_epoch = k, model_state_dict = weights st',
                       optimizer_state_dict = optimizer st',
                       train_loss = snd (train_epoch (weights st, optimizer st)),
                       val_loss = vl, ckpt_metadata = md,
                       ckpt_model_config =
                         \<lparr> input_size = md_n_features md,
                           hidden_size = args_hidden_size args,
                           num_layers = args_num_layers args,
                           dropout = args_dropout args \<rparr> \<rparr>
                     # best_model_pth st
            else best_val_loss st' = best_val_loss st
                 \<and> patience_counter st' = patience_counter st + 1
                 \<and> best_model_pth st' = best_model_pth st)"
    unfolding Let_def .
qed

lemma demo_trace:
  "map (\<lambda>st. (weights st, best_val_loss st, patience_counter st,
               map ckpt_epoch (best_model_pth st)))
     (training_trace demo_train_epoch demo_validate demo_args demo_metadata
        (epochs_range demo_args) (initial_state 0 () []))
   = [(1, Some 3, 0, [0]), (2, Some 2, 0, [1, 0]), (3, Some 2, 1, [1, 0]),
      (4, Some 2, 2, [1, 0])]"
  by (simp add: epochs_range_def demo_args_def upt_conv_Cons epoch_body_def
      initial_state_def demo_train_epoch_def demo_validate_def loss_less_def Let_def)

theorem checkpoint_only_on_improvement_witness:
  "let tr = initial_state 0 () []
            # training_trace demo_train_epoch demo_validate demo_args demo_metadata
                (epochs_range demo_args) (initial_state 0 () [])
   in Suc 1 < length tr
      \<and> best_val_loss (tr ! 1) = Some 3 \<and> demo_validate (weights (tr ! Suc 1)) = 2
      \<and> best_le (best_val_loss (tr ! Suc 1)) (best_val_loss (tr ! 1))
      \<and> best_val_loss (tr ! Suc 1) = Some 2 \<and> patience_counter (tr ! Suc 1) = 0
      \<and> map ckpt_epoch (best_model_pth (tr ! Suc 1)) = [1, 0]"
proof -
  let ?trace = "training_trace demo_train_epoch demo_validate demo_args demo_metadata
                  (epochs_range demo_args) (initial_state 0 () [])"
  let ?tr = "initial_state 0 () [] # ?trace"
  from arg_cong [OF demo_trace, of length] have len: "length ?trace = 4"
    by simp
  from arg_cong [OF demo_trace, of "\<lambda>l. l ! 0"] len
  have s1: "best_val_loss (?tr ! 1) = Some 3"
    "map ckpt_epoch (best_model_pth (?tr ! 1)) = [0]"
    by simp_all
  from arg_cong [OF demo_trace, of "\<lambda>l. l ! 1"] len
  have s2: "weights (?tr ! Suc 1) = 2"
    by simp
  then have v: "demo_validate (weights (?tr ! Suc 1)) = 2"
    by (simp add: demo_validate_def)
  from len have k: "Suc 1 < length ?tr"
    by simp
  from checkpoint_only_on_improvement [of 0 "()" "[]" demo_train_epoch demo_validate demo_args
      demo_metadata, rule_format, OF k] s1 v k
  show ?thesis
    by (auto simp: Let_def loss_less_def)
qed

lemma learner_after_Suc:
  "learner_after te (Suc k) l = learner_after te k (fst (te l))"
  unfolding learner_after_def by (induction k) simp_all

lemma loss_history_nth:
  "k < n \<Longrightarrow>
   loss_history te va n l ! k = va (fst (learner_after te (Suc k) l))"
proof (induction n arbitrary: l k)
  case 0
  then show ?case by simp
next
  case (Suc n)
  obtain l' x where te: "te l = (l', x)" by (cases "te l")
  show ?case
  proof (cases k)
    case 0
    with te show ?thesis by (simp add: learner_after_def)
  next
    case (Suc j)
    with Suc.prems have "j < n" by simp
    from Suc.IH [OF this, of l'] te Suc show ?thesis
      by (simp add: learner_after_Suc [of te "Suc j" l])
  qed
qed

lemma best_so_far_bound:
  "(best_so_far vs k = None \<longleftrightarrow> k = 0)
   \<and> (\<forall>b. best_so_far vs k = Some b \<longrightarrow> (\<exists>j<k. vs ! j = b) \<and> (\<forall>j<k. b \<le> vs ! j))"
proof (induction k)
  case 0
  show ?case by simp
next
  case (Suc k)
  show ?case
  proof (cases "best_so_far vs k")
    case None
    with Suc have "k = 0" by simp
    with None show ?thesis by (simp add: loss_less_def)
  next
    case (Some b)
    with Suc have b: "\<exists>j<k. vs ! j = b" "\<forall>j<k. b \<le> vs ! j" by simp_all
    show ?thesis
    proof (cases "vs ! k < b")
      case True
      with Some b show ?thesis
        by (auto simp: loss_less_def less_Suc_eq)
    next
      case False
      with Some b show ?thesis
        by (auto simp: loss_less_def less_Suc_eq)
    qed
  qed
qed

lemma loss_less_improves: "loss_less (vs ! k) (best_so_far vs k) \<longleftrightarrow> improves vs k"
proof (cases "best_so_far vs k")
  case None
  with best_so_far_bound [of vs k] show ?thesis
    by (simp add: loss_less_def improves_def)
next
  case (Some b)
  with best_so_far_bound [of vs k]
  have b: "\<exists>j<k. vs ! j = b" "\<forall>j<k. b \<le> vs ! j" by simp_all
  show ?thesis
  proof
    assume "loss_less (vs ! k) (best_so_far vs k)"
    with Some have "vs ! k < b" by (simp add: loss_less_def)
    with b(2) show "improves vs k"
      by (fastforce simp: improves_def)
  next
    assume "improves vs k"
    with b(1) have "vs ! k < b" by (auto simp: improves_def)
    with Some show "loss_less (vs ! k) (best_so_far vs k)"
      by (simp add: loss_less_def)
  qed
qed

lemma improves_0 [simp]: "improves vs 0"
  by (simp add: improves_def)

lemma epoch_body_invariant:
  assumes k: "k < n" and vs: "vs = loss_history te va n l0"
    and inv: "loop_invariant te l0 vs k st"
    and body: "epoch_body te va args md k st = (st', brk)"
  shows "loop_invariant te l0 vs (Suc k) st'
         \<and> (brk \<longleftrightarrow> patience_exhausted vs (args_patience args) k)"
proof -
  obtain w opt x where te: "te (weights st, optimizer st) = ((w, opt), x)"
    by (metis prod.exhaust)
  from inv have l: "(weights st, optimizer st) = learner_after te k l0"
    and best: "best_val_loss st = best_so_far vs k"
    and cnt: "patience_counter st = (case k of 0 \<Rightarrow> 0 | Suc j \<Rightarrow> int (streak vs j))"
    by (simp_all add: loop_invariant_def)
  from l te have next_l: "learner_after te (Suc k) l0 = (w, opt)"
    by (simp add: learner_after_def)
  with loss_history_nth [OF k, of te va l0] vs have vl: "va w = vs ! k"
    by simp
  have less: "loss_less (va w) (best_val_loss st) \<longleftrightarrow> improves vs k"
    using vl best loss_less_improves [of vs k] by simp
  show ?thesis
  proof (cases "improves vs k")
    case True
    with less body te vl best next_l show ?thesis
      by (cases k)
        (auto simp: epoch_body_def loop_invariant_def patience_exhausted_def Let_def)
  next
    case False
    then obtain j where j: "k = Suc j"
      by (cases k) simp_all
    with False less body te vl best next_l cnt show ?thesis
      by (auto simp: epoch_body_def loop_invariant_def patience_exhausted_def Let_def)
  qed
qed

lemma training_loop_stops:
  assumes vs: "vs = loss_history te va n l0"
  shows "k \<le> n \<Longrightarrow> loop_invariant te l0 vs k st \<Longrightarrow>
         snd (training_loop te va args md [k..<n] st)
           = find (patience_exhausted vs (args_patience args)) [k..<n]
         \<and> length (training_trace te va args md [k..<n] st)
           = (case find (patience_exhausted vs (args_patience args)) [k..<n] of
                None \<Rightarrow> n - k | Some e \<Rightarrow> Suc e - k)"
proof (induction "n - k" arbitrary: k st)
  case 0
  then show ?case by simp
next
  case (Suc d)
  then have k: "k < n" by simp
  then have upt: "[k..<n] = k # [Suc k..<n]"
    by (rule upt_conv_Cons)
  obtain st' brk where body: "epoch_body te va args md k st = (st', brk)"
    by (cases "epoch_body te va args md k st")
  from epoch_body_invariant [OF k vs Suc.prems(2) body]
  have inv': "loop_invariant te l0 vs (Suc k) st'"
    and brk: "brk \<longleftrightarrow> patience_exhausted vs (args_patience args) k"
    by simp_all
  show ?case
  proof (cases brk)
    case True
    with body brk upt show ?thesis by simp
  next
    case False
    from Suc.hyps(2) k have "d = n - Suc k" "Suc k \<le> n" by simp_all
    from Suc.hyps(1) [OF this inv']
    have rec: "snd (training_loop te va args md [Suc k..<n] st')
               = find (patience_exhausted vs (args_patience args)) [Suc k..<n]"
      and len: "length (training_trace te va args md [Suc k..<n] st')
                = (case find (patience_exhausted vs (args_patience args)) [Suc k..<n] of
                     None \<Rightarrow> n - Suc k | Some e \<Rightarrow> Suc e - Suc k)"
      by simp_all
    have "Suc k \<le> e" if "find (patience_exhausted vs (args_patience args)) [Suc k..<n] = Some e"
      for e
      using that by (auto simp: find_Some_iff)
    with rec len False body brk upt k show ?thesis
      by (auto split: option.splits)
  qed
qed

lemma loop_invariant_initial:
  "loop_invariant te (w0, opt0) vs 0 (initial_state w0 opt0 file0)"
  by (simp add: loop_invariant_def initial_state_def learner_after_def)

lemma first_exhausted_exact:
  assumes found: "find (patience_exhausted vs patience) [0..<n] = Some e"
    and pos: "1 \<le> patience"
  shows "int (streak vs e) = patience"
proof -
  from found have e: "patience_exhausted vs patience e"
    and first: "\<forall>j<e. \<not> patience_exhausted vs patience j"
    by (auto simp: find_Some_iff)
  from e have ni: "\<not> improves vs e" and ge: "patience \<le> int (streak vs e)"
    by (simp_all add: patience_exhausted_def)
  from ni obtain j where j: "e = Suc j"
    by (cases e) simp_all
  with ni have s: "streak vs e = Suc (streak vs j)"
    by simp
  from first j have "improves vs j \<or> int (streak vs j) < patience"
    by (auto simp: patience_exhausted_def)
  then have "int (streak vs j) < patience"
  proof
    assume "improves vs j"
    then have "streak vs j = 0" by (cases j) simp_all
    with pos show ?thesis by simp
  qed
  with s ge show ?thesis by simp
qed

text \<open>
  Claim C5. The loop breaks at the first epoch that brings no improvement and at which
  the count of consecutive epochs without improvement has reached the patience, and at
  no other epoch; when there is no such epoch it runs through all \<open>args.epochs\<close>
  epochs. It executes no epoch after the one at which it breaks. For a patience of at
  least 1 the count equals the patience at that epoch.
\<close>

theorem early_stopping_at_patience:
  "let n = nat (args_epochs args);
       vs = loss_history train_epoch validate n (w0, opt0);
       st0 = initial_state w0 opt0 file0;
       stop = snd (training_loop train_epoch validate args md (epochs_range args) st0);
       executed = length (training_trace train_epoch validate args md (epochs_range args) st0)
   in stop = find (patience_exhausted vs (args_patience args)) [0..<n]
      \<and> executed = (case stop of None \<Rightarrow> n | Some e \<Rightarrow> Suc e)
      \<and> (\<forall>e. stop = Some e \<and> 1 \<le> args_patience args \<longrightarrow>
             int (streak vs e) = args_patience args)"
proof -
  let ?n = "nat (args_epochs args)"
  let ?vs = "loss_history train_epoch validate ?n (w0, opt0)"
  let ?st0 = "initial_state w0 opt0 file0"
  have inv: "loop_invariant train_epoch (w0, opt0) ?vs 0 ?st0"
    by (rule loop_invariant_initial)
  from training_loop_stops [OF refl le0 inv, where args = args and md = md]
  have stop: "snd (training_loop train_epoch validate args md [0..<?n] ?st0)
              = find (patience_exhausted ?vs (args_patience args)) [0..<?n]"
    and len: "length (training_trace train_epoch validate args md [0..<?n] ?st0)
              = (case find (patience_exhausted ?vs (args_patience args)) [0..<?n] of
                   None \<Rightarrow> ?n | Some e \<Rightarrow> Suc e)"
    by (simp_all split: option.splits)
  from stop len first_exhausted_exact [of ?vs "args_patience args" ?n] show ?thesis
    by (simp add: epochs_range_def Let_def)
qed

lemma demo_history:
  "loss_history demo_train_epoch demo_validate (nat (args_epochs demo_args)) (0, ())
   = [3, 2, 2, 5, 1]"
  by (simp add: demo_args_def demo_train_epoch_def demo_validate_def eval_nat_numeral)

lemma demo_first_exhausted:
  "find (patience_exhausted [3, 2, 2, 5, 1] 2) [0..<5] = Some 3"
  by (simp add: patience_exhausted_def improves_def upt_conv_Cons eval_nat_numeral
      less_Suc_eq all_conj_distrib)

theorem early_stopping_at_patience_witness:
  "snd (training_loop demo_train_epoch demo_validate demo_args demo_metadata
          (epochs_range demo_args) (initial_state 0 () [])) = Some 3
   \<and> length (training_trace demo_train_epoch demo_validate demo_args demo_metadata
               (epochs_range demo_args) (initial_state 0 () [])) = 4
   \<and> 1 \<le> args_patience demo_args
   \<and> int (streak [3, 2, 2, 5, 1] 3) = args_patience demo_args"
  using early_stopping_at_patience [of demo_args demo_train_epoch demo_validate 0 "()" "[]"
      demo_metadata]
  by (simp add: demo_history Let_def) (simp add: demo_args_def demo_first_exhausted)

section \<open>Properties of the forecast endpoint\<close>

definition ten_rows :: table where
  "ten_rows =
     \<lparr> timestamp = Some (map int [0..<10]),
       columns = [\<lparr> col_name = ''temperature'', col_dtype = Float64,
                    col_values = map (\<lambda>i. Some (real i)) [0..<10] \<rparr>,
                  \<lparr> col_name = ''humidity'', col_dtype = Float64,
                    col_values = map (\<lambda>i. Some 50) [0..<10] \<rparr>] \<rparr>"

lemma len_df_set_column [simp]:
  "timestamp df \<noteq> None \<Longrightarrow> len_df (set_column name d vs df) = len_df df"
  by (auto simp: len_df_def set_column_def Let_def)

lemma length_py_slice_tail:
  "0 < k \<Longrightarrow> length (py_slice xs (- int k) (int (length xs))) = min k (length xs)"
  by (auto simp: py_slice_def Let_def)

lemma len_df_time_features:
  "timestamp df \<noteq> None \<Longrightarrow> len_df (time_features dt_hour dt_dayofyear df) = len_df df"
  by (auto simp: time_features_def Let_def)

lemma forecast_window_length:
  assumes "forecast_window dt_hour dt_dayofyear df = Inr w"
  shows "length w = min 4 (len_df df)"
proof -
  from assms obtain cols
    where ts: "timestamp df \<noteq> None"
      and w: "w = py_slice (frame_values (len_df df) cols) (- 4) (int (len_df df))"
    by (auto simp: forecast_window_def Let_def len_df_time_features
        split: option.splits sum.splits)
  from length_py_slice_tail [of 4 "frame_values (len_df df) cols"] w show ?thesis
    by (simp add: length_frame_values)
qed

definition probe_predictor :: predictor where
  "probe_predictor =
     \<lparr> model = (\<lambda>Z. Some (real (length Z))),
       pred_scaler = \<lparr> scaler_mean = replicate 6 (Some 0), scaler_scale = replicate 6 (Some 1),
                       n_features_in = 6 \<rparr>,
       pred_metadata = demo_metadata \<rparr>"

text \<open>
  Claim C9 does not hold of the code. The endpoint takes the last four rows whatever the
  sequence length of the loaded model. \<open>probe_predictor\<close> carries the metadata of a
  model trained on windows of eight rows, and its model returns the number of rows it is
  given: on a table of ten rows the window holds rows 6 to 9 only, and the forecast that
  the endpoint returns for a supported location shows that the model saw four rows.
\<close>

theorem forecast_window_ignores_sequence_length:
  "md_sequence_length (pred_metadata probe_predictor) = 8
   \<and> (case forecast_window (\<lambda>t. t mod 24) (\<lambda>t. 1) ten_rows of
        Inl e \<Rightarrow> False
      | Inr recent_data \<Rightarrow>
          length recent_data = 4
          \<and> map (\<lambda>r. r ! 0) recent_data = [Some 6, Some 7, Some 8, Some 9])
   \<and> get_forecast (\<lambda>t. t mod 24) (\<lambda>t. 1) (Some probe_predictor) (Inr ten_rows)
        (33749 / 1000) (- 84388 / 1000)
     = Forecast \<lparr> temperature_celsius = Some 4, temperature_fahrenheit = Some (196 / 5),
                  forecast_hours = 24, confidence = 85 / 100 \<rparr>"
  by (simp add: get_forecast_def probe_predictor_def predict_def scaler_transform_def
      scaler_inverse_transform_def check_array_def n_cols_def standardize_row_def
      unstandardize_row_def fsub_def fdiv_def fmul_def fadd_def
      forecast_window_def ten_rows_def time_features_def set_column_def features_def
      len_df_def frame_values_def py_slice_def demo_metadata_def upt_conv_Cons Let_def
      eval_nat_numeral)

end
